theory Spec2Isabelle
  imports Main "HOL-Library.Word" "HOL-Library.Sublist" "HOL-Library.AList"
begin

section \<open>JavaScript strings\<close>

text \<open>
  A JavaScript string is a sequence of 16-bit code units. String literals of the source
  are written with \<open>js\<close>, which maps every character of an ASCII literal to its code unit.
\<close>

type_synonym code_unit = "16 word"
type_synonym jsstring = "code_unit list"

definition js :: "string \<Rightarrow> jsstring" where
  "js s = map (\<lambda>c. of_nat (of_char c)) s"

text \<open>\<open>String.prototype.includes\<close>: does the pattern occur at some position of the subject?\<close>

fun str_includes :: "jsstring \<Rightarrow> jsstring \<Rightarrow> bool" where
  "str_includes [] pat = (pat = [])"
| "str_includes (x # xs) pat = (prefix pat (x # xs) \<or> str_includes xs pat)"

section \<open>utils/sanitizers.js: WeakSanitizers\<close>

text \<open>
  \<open>String.prototype.replace\<close> called with a string pattern (not a regular expression) and a
  replacement that holds no \<open>$\<close> pattern: only the first occurrence of the pattern is replaced.
\<close>

fun replace_str :: "jsstring \<Rightarrow> jsstring \<Rightarrow> jsstring \<Rightarrow> jsstring" where
  "replace_str pat rep [] = (if pat = [] then rep else [])"
| "replace_str pat rep (x # xs) =
     (if prefix pat (x # xs) then rep @ drop (length pat) (x # xs)
      else x # replace_str pat rep xs)"

text \<open>
  \<open>String.prototype.replace\<close> called with a regular expression that is a literal, non-empty
  sequence of code units and carries the \<open>g\<close> flag: one pass from left to right replaces every
  match; the scan resumes after the end of each match and never looks at the replacement.
\<close>

function replace_all_lit :: "jsstring \<Rightarrow> jsstring \<Rightarrow> jsstring \<Rightarrow> jsstring" where
  "replace_all_lit pat rep [] = []"
| "replace_all_lit pat rep (x # xs) =
     (if pat \<noteq> [] \<and> prefix pat (x # xs)
      then rep @ replace_all_lit pat rep (drop (length pat) (x # xs))
      else x # replace_all_lit pat rep xs)"
  by pat_completeness auto
termination
  by (relation "measure (\<lambda>(pat, rep, s). length s)") (auto simp: neq_Nil_conv)

text \<open>
  \<^verbatim>\<open>
  static sanitizeCommand(input) {
      const blacklist = [';', '&', '|', '`', '$', '(', ')', '{', '}'];
      for (const char of blacklist) {
          input = input.replace(char, '');
      }
      return input;
  }
  \<close>
\<close>

definition blacklist :: "jsstring list" where
  "blacklist = [js '';'', js ''&'', js ''|'', js ''`'', js ''$'', js ''('', js '')'',
                js ''{'', js ''}'']"

text \<open>The code units of the blacklisted characters.\<close>

definition blacklist_units :: "code_unit list" where
  "blacklist_units = [59, 38, 124, 96, 36, 40, 41, 123, 125]"

definition sanitizeCommand :: "jsstring \<Rightarrow> jsstring" where
  "sanitizeCommand input = foldl (\<lambda>inp ch. replace_str ch [] inp) input blacklist"

text \<open>
  \<^verbatim>\<open>
  static sanitizePath(input) {
      return input.replace(/\.\.\//g, '');
  }
  \<close>
\<close>

definition sanitizePath :: "jsstring \<Rightarrow> jsstring" where
  "sanitizePath input = replace_all_lit (js ''../'') [] input"

section \<open>Completions and promises\<close>

text \<open>
  A call of a JavaScript function either returns a value or throws; a promise is fulfilled
  with a value or rejected with a reason on some turn of the event loop, or it never settles.
  The turn only orders settlements: \<open>await\<close> and \<open>async\<close> wrappers are taken not to
  change it.
\<close>

datatype ('e, 'a) completion = Normal 'a | Throw 'e

datatype ('e, 'a) promise = Fulfilled nat 'a | Rejected nat 'e | Pending

text \<open>
  The rejections among the promises of a list, each with its turn and its index, and the
  one that is first by turn (and by index on the same turn).
\<close>

fun rejections :: "nat \<Rightarrow> ('e, 'a) promise list \<Rightarrow> (nat \<times> nat \<times> 'e) list" where
  "rejections i [] = []"
| "rejections i (Rejected t e # ps) = (t, i, e) # rejections (Suc i) ps"
| "rejections i (p # ps) = rejections (Suc i) ps"

fun earliest :: "(nat \<times> nat \<times> 'e) \<Rightarrow> (nat \<times> nat \<times> 'e) list \<Rightarrow> (nat \<times> nat \<times> 'e)" where
  "earliest r [] = r"
| "earliest (t, i, e) ((t', i', e') # rs) =
     (if t' < t then earliest (t', i', e') rs else earliest (t, i, e) rs)"

fun fulfilments :: "('e, 'a) promise list \<Rightarrow> (nat \<times> 'a list) option" where
  "fulfilments [] = Some (0, [])"
| "fulfilments (Fulfilled t v # ps) =
     (case fulfilments ps of None \<Rightarrow> None | Some (t', vs) \<Rightarrow> Some (max t t', v # vs))"
| "fulfilments (p # ps) = None"

text \<open>
  \<open>Promise.all\<close>: rejects as soon as one promise rejects, with that promise's reason;
  fulfils with the values in index order once every promise has fulfilled; otherwise it
  never settles.
\<close>

definition promise_all :: "('e, 'a) promise list \<Rightarrow> ('e, 'a list) promise" where
  "promise_all ps =
     (case rejections 0 ps of
        r # rs \<Rightarrow> (case earliest r rs of (t, i, e) \<Rightarrow> Rejected t e)
      | [] \<Rightarrow> (case fulfilments ps of Some (t, vs) \<Rightarrow> Fulfilled t vs | None \<Rightarrow> Pending))"

section \<open>Buffer: UTF-8 and base64\<close>

type_synonym byte = "8 word"











text \<open>
  \<open>Buffer.from(string, 'base64')\<close> never fails. The decoder reads every code unit of
  the string by its low byte: a byte outside the alphabet (which also admits \<open>-\<close> and
  \<open>_\<close> for 62 and 63) is skipped, decoding stops at the first \<open>=\<close> byte, and a last
  group of two or three characters gives one or two bytes.
\<close>

definition low_byte :: "code_unit \<Rightarrow> nat" where
  "low_byte c = unat c mod 256"

definition unbase64 :: "nat \<Rightarrow> nat option" where
  "unbase64 b =
     (if 65 \<le> b \<and> b \<le> 90 then Some (b - 65)
      else if 97 \<le> b \<and> b \<le> 122 then Some (b - 97 + 26)
      else if 48 \<le> b \<and> b \<le> 57 then Some (b - 48 + 52)
      else if b = 43 \<or> b = 45 then Some 62
      else if b = 47 \<or> b = 95 then Some 63
      else None)"

definition b64_value :: "code_unit \<Rightarrow> nat option" where
  "b64_value c = unbase64 (low_byte c)"

fun sextets_to_bytes :: "nat list \<Rightarrow> nat list" where
  "sextets_to_bytes (a # b # c # d # rest) =
     [a * 4 + b div 16, b mod 16 * 16 + c div 4, c mod 4 * 64 + d] @ sextets_to_bytes rest"
| "sextets_to_bytes [a, b, c] = [a * 4 + b div 16, b mod 16 * 16 + c div 4]"
| "sextets_to_bytes [a, b] = [a * 4 + b div 16]"
| "sextets_to_bytes [a] = []"
| "sextets_to_bytes [] = []"

definition b64_sextets :: "jsstring \<Rightarrow> nat list" where
  "b64_sextets s = List.map_filter b64_value (takeWhile (\<lambda>c. low_byte c \<noteq> 61) s)"

definition Buffer_from_base64 :: "jsstring \<Rightarrow> byte list" where
  "Buffer_from_base64 s = map of_nat (sextets_to_bytes (b64_sextets s))"

text \<open>
  \<open>buffer.toString()\<close> decodes UTF-8: a well-formed sequence gives its code point; an
  ill-formed one gives U+FFFD for its longest prefix that could start a well-formed
  sequence, and decoding resumes at the byte after that prefix. A code point above U+FFFF
  becomes a surrogate pair.
\<close>

definition continuation :: "nat \<Rightarrow> bool" where
  "continuation c = (0x80 \<le> c \<and> c \<le> 0xBF)"

definition second_of_three :: "nat \<Rightarrow> nat \<Rightarrow> bool" where
  "second_of_three b c =
     (if b = 0xE0 then 0xA0 \<le> c \<and> c \<le> 0xBF
      else if b = 0xED then 0x80 \<le> c \<and> c \<le> 0x9F
      else continuation c)"

definition second_of_four :: "nat \<Rightarrow> nat \<Rightarrow> bool" where
  "second_of_four b c =
     (if b = 0xF0 then 0x90 \<le> c \<and> c \<le> 0xBF
      else if b = 0xF4 then 0x80 \<le> c \<and> c \<le> 0x8F
      else continuation c)"

fun utf8_decode :: "nat list \<Rightarrow> nat list" where
  "utf8_decode [] = []"
| "utf8_decode (b # bs) =
     (if b < 0x80 then b # utf8_decode bs
      else if 0xC2 \<le> b \<and> b \<le> 0xDF then
        (case bs of
           [] \<Rightarrow> [0xFFFD]
         | c # bs1 \<Rightarrow>
             if continuation c then ((b - 0xC0) * 64 + (c - 0x80)) # utf8_decode bs1
             else 0xFFFD # utf8_decode bs)
      else if 0xE0 \<le> b \<and> b \<le> 0xEF then
        (case bs of
           [] \<Rightarrow> [0xFFFD]
         | c # bs1 \<Rightarrow>
             if second_of_three b c then
               (case bs1 of
                  [] \<Rightarrow> [0xFFFD]
                | d # bs2 \<Rightarrow>
                    if continuation d
                    then ((b - 0xE0) * 4096 + (c - 0x80) * 64 + (d - 0x80)) # utf8_decode bs2
                    else 0xFFFD # utf8_decode bs1)
             else 0xFFFD # utf8_decode bs)
      else if 0xF0 \<le> b \<and> b \<le> 0xF4 then
        (case bs of
           [] \<Rightarrow> [0xFFFD]
         | c # bs1 \<Rightarrow>
             if second_of_four b c then
               (case bs1 of
                  [] \<Rightarrow> [0xFFFD]
                | d # bs2 \<Rightarrow>
                    if continuation d then
                      (case bs2 of
                         [] \<Rightarrow> [0xFFFD]
                       | e # bs3 \<Rightarrow>
                           if continuation e
                           then ((b - 0xF0) * 262144 + (c - 0x80) * 4096 + (d - 0x80) * 64 +
                                 (e - 0x80)) # utf8_decode bs3
                           else 0xFFFD # utf8_decode bs2)
                    else 0xFFFD # utf8_decode bs1)
             else 0xFFFD # utf8_decode bs)
      else 0xFFFD # utf8_decode bs)"

definition utf16_encode :: "nat \<Rightarrow> jsstring" where
  "utf16_encode cp =
     (if cp < 0x10000 then [of_nat cp]
      else [of_nat (0xD800 + (cp - 0x10000) div 0x400), of_nat (0xDC00 + (cp - 0x10000) mod 0x400)])"

definition Buffer_toString_utf8 :: "byte list \<Rightarrow> jsstring" where
  "Buffer_toString_utf8 buf = concat (map utf16_encode (utf8_decode (map unat buf)))"




section \<open>JSON\<close>

text \<open>
  The values of JSON, with the properties of an object in the order of their creation,
  and the exceptions the modelled code can raise.
\<close>

datatype 'n json = JNull | JBoolean bool | JNumber 'n | JString jsstring
  | JArray "'n json list" | JObject "(jsstring \<times> 'n json) list"

datatype js_error = TypeError | SyntaxError









text \<open>
  \<open>JSON.parse(text)\<close>: the text is cut into tokens, white space between tokens is
  skipped, and the tokens are read by a machine with a stack of the arrays and objects
  that are still open. Any text outside the JSON grammar is a \<open>SyntaxError\<close>.
\<close>

datatype token = TLBracket | TRBracket | TLBrace | TRBrace | TComma | TColon
  | TString jsstring | TNumber jsstring | TTrue | TFalse | TNull

definition is_ws :: "code_unit \<Rightarrow> bool" where
  "is_ws c = (c = 0x20 \<or> c = 0x09 \<or> c = 0x0A \<or> c = 0x0D)"

definition is_digit :: "code_unit \<Rightarrow> bool" where
  "is_digit c = (0x30 \<le> c \<and> c \<le> 0x39)"

text \<open>
  The body of a string literal, after its opening quotation mark: the string denoted and
  the text after the closing quotation mark. A control character or an unknown escape
  ends the parse.
\<close>

definition hex_value :: "code_unit \<Rightarrow> nat option" where
  "hex_value c =
     (if 0x30 \<le> c \<and> c \<le> 0x39 then Some (unat c - 0x30)
      else if 0x61 \<le> c \<and> c \<le> 0x66 then Some (unat c - 0x61 + 10)
      else if 0x41 \<le> c \<and> c \<le> 0x46 then Some (unat c - 0x41 + 10)
      else None)"

fun hex4 :: "jsstring \<Rightarrow> code_unit option" where
  "hex4 [a, b, c, d] =
     (case (hex_value a, hex_value b, hex_value c, hex_value d) of
        (Some h3, Some h2, Some h1, Some h0) \<Rightarrow> Some (of_nat (h3 * 4096 + h2 * 256 + h1 * 16 + h0))
      | _ \<Rightarrow> None)"
| "hex4 hs = None"

definition unescape :: "code_unit \<Rightarrow> code_unit option" where
  "unescape e =
     (if e = 0x22 then Some 0x22
      else if e = 0x5C then Some 0x5C
      else if e = 0x2F then Some 0x2F
      else if e = 0x62 then Some 0x08
      else if e = 0x66 then Some 0x0C
      else if e = 0x6E then Some 0x0A
      else if e = 0x72 then Some 0x0D
      else if e = 0x74 then Some 0x09
      else None)"

definition cons_unit :: "code_unit \<Rightarrow> (jsstring \<times> jsstring) option \<Rightarrow> (jsstring \<times> jsstring) option" where
  "cons_unit u r = (case r of None \<Rightarrow> None | Some (s, rest) \<Rightarrow> Some (u # s, rest))"

function string_body :: "jsstring \<Rightarrow> (jsstring \<times> jsstring) option" where
  "string_body [] = None"
| "string_body (c # cs) =
     (if c = 0x22 then Some ([], cs)
      else if c = 0x5C then
        (case cs of
           [] \<Rightarrow> None
         | e # cs1 \<Rightarrow>
             if e = 0x75 then
               (case hex4 (take 4 cs1) of
                  None \<Rightarrow> None
                | Some u \<Rightarrow> cons_unit u (string_body (drop 4 cs1)))
             else
               (case unescape e of
                  None \<Rightarrow> None
                | Some u \<Rightarrow> cons_unit u (string_body cs1)))
      else if c < 0x20 then None
      else cons_unit c (string_body cs))"
  by pat_completeness auto
termination
  by (relation "measure length") auto

text \<open>
  A number literal: an optional minus sign, an integer part without leading zero, an
  optional fraction and an optional exponent. \<open>lex_number\<close> returns the literal and the
  text after it.
\<close>

definition opt_minus :: "jsstring \<Rightarrow> jsstring \<times> jsstring" where
  "opt_minus s = (case s of [] \<Rightarrow> ([], []) | c # cs \<Rightarrow> if c = 0x2D then ([c], cs) else ([], s))"

definition int_part :: "jsstring \<Rightarrow> (jsstring \<times> jsstring) option" where
  "int_part s =
     (case s of
        [] \<Rightarrow> None
      | d # cs \<Rightarrow>
          if d = 0x30 then Some ([d], cs)
          else if is_digit d then Some (d # takeWhile is_digit cs, dropWhile is_digit cs)
          else None)"

definition digits1 :: "jsstring \<Rightarrow> jsstring \<Rightarrow> (jsstring \<times> jsstring) option" where
  "digits1 pre s =
     (if takeWhile is_digit s = [] then None
      else Some (pre @ takeWhile is_digit s, dropWhile is_digit s))"

definition frac_part :: "jsstring \<Rightarrow> (jsstring \<times> jsstring) option" where
  "frac_part s =
     (case s of
        [] \<Rightarrow> Some ([], [])
      | c # cs \<Rightarrow> if c = 0x2E then digits1 [c] cs else Some ([], s))"

definition exp_part :: "jsstring \<Rightarrow> (jsstring \<times> jsstring) option" where
  "exp_part s =
     (case s of
        [] \<Rightarrow> Some ([], [])
      | c # cs \<Rightarrow>
          if c = 0x65 \<or> c = 0x45 then
            (case cs of
               [] \<Rightarrow> None
             | x # xs \<Rightarrow> if x = 0x2B \<or> x = 0x2D then digits1 [c, x] xs else digits1 [c] cs)
          else Some ([], s))"

definition lex_number :: "jsstring \<Rightarrow> (jsstring \<times> jsstring) option" where
  "lex_number s =
     (case opt_minus s of
        (m, s1) \<Rightarrow>
          (case int_part s1 of
             None \<Rightarrow> None
           | Some (i, s2) \<Rightarrow>
               (case frac_part s2 of
                  None \<Rightarrow> None
                | Some (f, s3) \<Rightarrow>
                    (case exp_part s3 of
                       None \<Rightarrow> None
                     | Some (e, s4) \<Rightarrow> Some (m @ i @ f @ e, s4)))))"

text \<open>
  Each token takes at least one code unit of the text, which is why \<open>tokenise\<close>
  terminates.
\<close>

lemma cons_unit_Some:
  "cons_unit u r = Some (s, rest) \<Longrightarrow> \<exists>s'. r = Some (s', rest) \<and> s = u # s'"
  by (auto simp: cons_unit_def split: option.splits)

lemma string_body_length:
  "string_body cs = Some (s, rest) \<Longrightarrow> length rest < length cs"
proof (induction cs arbitrary: s rest rule: string_body.induct)
  case 1
  then show ?case by simp
next
  case (2 c cs)
  show ?case
  proof (cases "c = 0x22")
    case True
    with "2.prems" show ?thesis by simp
  next
    case q: False
    show ?thesis
    proof (cases "c = 0x5C")
      case b: True
      from "2.prems" q b obtain e cs1 where cs: "cs = e # cs1"
        by (cases cs) auto
      show ?thesis
      proof (cases "e = 0x75")
        case True
        from "2.prems" q b cs True obtain u where u: "hex4 (take 4 cs1) = Some u"
          and r: "cons_unit u (string_body (drop 4 cs1)) = Some (s, rest)"
          by (auto split: option.splits)
        from cons_unit_Some [OF r] obtain s' where "string_body (drop 4 cs1) = Some (s', rest)"
          by blast
        from "2.IH"(1) [OF q b cs True u this] show ?thesis
          using cs by simp
      next
        case False
        from "2.prems" q b cs False obtain u where u: "unescape e = Some u"
          and r: "cons_unit u (string_body cs1) = Some (s, rest)"
          by (auto split: option.splits)
        from cons_unit_Some [OF r] obtain s' where "string_body cs1 = Some (s', rest)"
          by blast
        from "2.IH"(2) [OF q b cs False u this] show ?thesis
          using cs by simp
      qed
    next
      case b: False
      from "2.prems" q b have c: "\<not> c < 0x20"
        and r: "cons_unit c (string_body cs) = Some (s, rest)"
        by (auto split: if_splits)
      from cons_unit_Some [OF r] obtain s' where "string_body cs = Some (s', rest)"
        by blast
      from "2.IH"(3) [OF q b c this] show ?thesis by simp
    qed
  qed
qed

lemma opt_minus_split: "opt_minus s = (m, r) \<Longrightarrow> s = m @ r"
  by (auto simp: opt_minus_def split: list.splits if_splits)

lemma int_part_split: "int_part s = Some (i, r) \<Longrightarrow> s = i @ r \<and> i \<noteq> []"
  by (auto simp: int_part_def split: list.splits if_splits)

lemma digits1_split: "digits1 pre s = Some (p, r) \<Longrightarrow> pre @ s = p @ r"
  by (auto simp: digits1_def split: if_splits)

lemma frac_part_split: "frac_part s = Some (f, r) \<Longrightarrow> s = f @ r"
  by (auto simp: frac_part_def split: list.splits if_splits dest: digits1_split)

lemma exp_part_split: "exp_part s = Some (e, r) \<Longrightarrow> s = e @ r"
  by (auto simp: exp_part_def split: list.splits if_splits dest: digits1_split)

lemma lex_number_split:
  assumes "lex_number s = Some (lit, rest)"
  shows "s = lit @ rest" and "lit \<noteq> []"
proof -
  obtain m s1 where m: "opt_minus s = (m, s1)" by (cases "opt_minus s")
  from assms m obtain i s2 where i: "int_part s1 = Some (i, s2)"
    by (auto simp: lex_number_def split: option.splits)
  from assms m i obtain f s3 where f: "frac_part s2 = Some (f, s3)"
    by (auto simp: lex_number_def split: option.splits)
  from assms m i f obtain e s4 where e: "exp_part s3 = Some (e, s4)"
    by (auto simp: lex_number_def split: option.splits)
  from assms m i f e have l: "lit = m @ i @ f @ e" "rest = s4"
    by (simp_all add: lex_number_def)
  show "s = lit @ rest"
    using opt_minus_split [OF m] int_part_split [OF i] frac_part_split [OF f]
      exp_part_split [OF e] l by simp
  show "lit \<noteq> []"
    using int_part_split [OF i] l by simp
qed

lemma lex_number_length: "lex_number s = Some (lit, rest) \<Longrightarrow> length rest < length s"
  using lex_number_split [of s lit rest] by (cases lit) auto

definition punctuation :: "code_unit \<Rightarrow> token option" where
  "punctuation c =
     (if c = 0x5B then Some TLBracket
      else if c = 0x5D then Some TRBracket
      else if c = 0x7B then Some TLBrace
      else if c = 0x7D then Some TRBrace
      else if c = 0x2C then Some TComma
      else if c = 0x3A then Some TColon
      else None)"

definition keyword :: "jsstring \<Rightarrow> (token \<times> jsstring) option" where
  "keyword s =
     (if prefix (js ''true'') s then Some (TTrue, drop 4 s)
      else if prefix (js ''false'') s then Some (TFalse, drop 5 s)
      else if prefix (js ''null'') s then Some (TNull, drop 4 s)
      else None)"

definition cons_token :: "token \<Rightarrow> token list option \<Rightarrow> token list option" where
  "cons_token t r = map_option (Cons t) r"

lemma keyword_length: "keyword s = Some (t, rest) \<Longrightarrow> length rest < length s"
  by (auto simp: keyword_def js_def prefix_def split: if_splits)

function tokenise :: "jsstring \<Rightarrow> token list option" where
  "tokenise [] = Some []"
| "tokenise (c # cs) =
     (if is_ws c then tokenise cs
      else
        (case punctuation c of
           Some t \<Rightarrow> cons_token t (tokenise cs)
         | None \<Rightarrow>
             if c = 0x22 then
               (case string_body cs of
                  None \<Rightarrow> None
                | Some (s, rest) \<Rightarrow> cons_token (TString s) (tokenise rest))
             else if c = 0x2D \<or> is_digit c then
               (case lex_number (c # cs) of
                  None \<Rightarrow> None
                | Some (lit, rest) \<Rightarrow> cons_token (TNumber lit) (tokenise rest))
             else
               (case keyword (c # cs) of
                  None \<Rightarrow> None
                | Some (t, rest) \<Rightarrow> cons_token t (tokenise rest))))"
  by pat_completeness auto
termination
  by (relation "measure length")
    (auto dest: string_body_length lex_number_length keyword_length)


text \<open>
  The machine that reads the tokens. A context is an open array with its elements so far,
  or an open object with its properties so far and the key whose value is being read.
  \<open>place\<close> puts a finished value where the innermost context wants it; a property whose
  key is already there gets the new value (the last one wins). \<open>rd\<close> is the conversion
  of a number literal to a number.
\<close>

datatype 'n ctx = InArray "'n json list" | InObject "(jsstring \<times> 'n json) list" jsstring

datatype 'n pstate = Start "'n ctx list" | ArrOpen "'n ctx list" | ObjOpen "'n ctx list"
  | ObjKey "(jsstring \<times> 'n json) list" "'n ctx list"
  | ObjColon "(jsstring \<times> 'n json) list" jsstring "'n ctx list"
  | ArrNext "'n json list" "'n ctx list"
  | ObjNext "(jsstring \<times> 'n json) list" "'n ctx list"
  | Finished "'n json"

fun place :: "'n json \<Rightarrow> 'n ctx list \<Rightarrow> 'n pstate" where
  "place v [] = Finished v"
| "place v (InArray acc # cs) = ArrNext (acc @ [v]) cs"
| "place v (InObject ms k # cs) = ObjNext (AList.update k v ms) cs"

fun open_value :: "(jsstring \<Rightarrow> 'n) \<Rightarrow> token \<Rightarrow> 'n ctx list \<Rightarrow> 'n pstate option" where
  "open_value rd TLBracket cs = Some (ArrOpen cs)"
| "open_value rd TLBrace cs = Some (ObjOpen cs)"
| "open_value rd (TString s) cs = Some (place (JString s) cs)"
| "open_value rd (TNumber lit) cs = Some (place (JNumber (rd lit)) cs)"
| "open_value rd TTrue cs = Some (place (JBoolean True) cs)"
| "open_value rd TFalse cs = Some (place (JBoolean False) cs)"
| "open_value rd TNull cs = Some (place JNull cs)"
| "open_value rd t cs = None"

fun step :: "(jsstring \<Rightarrow> 'n) \<Rightarrow> 'n pstate \<Rightarrow> token \<Rightarrow> 'n pstate option" where
  "step rd (Start cs) t = open_value rd t cs"
| "step rd (ArrOpen cs) t =
     (if t = TRBracket then Some (place (JArray []) cs) else open_value rd t (InArray [] # cs))"
| "step rd (ObjOpen cs) t =
     (case t of
        TRBrace \<Rightarrow> Some (place (JObject []) cs)
      | TString k \<Rightarrow> Some (ObjColon [] k cs)
      | _ \<Rightarrow> None)"
| "step rd (ObjKey ms cs) t = (case t of TString k \<Rightarrow> Some (ObjColon ms k cs) | _ \<Rightarrow> None)"
| "step rd (ObjColon ms k cs) t = (if t = TColon then Some (Start (InObject ms k # cs)) else None)"
| "step rd (ArrNext acc cs) t =
     (case t of
        TComma \<Rightarrow> Some (Start (InArray acc # cs))
      | TRBracket \<Rightarrow> Some (place (JArray acc) cs)
      | _ \<Rightarrow> None)"
| "step rd (ObjNext ms cs) t =
     (case t of
        TComma \<Rightarrow> Some (ObjKey ms cs)
      | TRBrace \<Rightarrow> Some (place (JObject ms) cs)
      | _ \<Rightarrow> None)"
| "step rd (Finished v) t = None"

fun run :: "(jsstring \<Rightarrow> 'n) \<Rightarrow> 'n pstate \<Rightarrow> token list \<Rightarrow> 'n pstate option" where
  "run rd st [] = Some st"
| "run rd st (t # ts) = (case step rd st t of None \<Rightarrow> None | Some st' \<Rightarrow> run rd st' ts)"

definition JSON_parse :: "(jsstring \<Rightarrow> 'n) \<Rightarrow> jsstring \<Rightarrow> (js_error, 'n json) completion" where
  "JSON_parse rd txt =
     (case tokenise txt of
        None \<Rightarrow> Throw SyntaxError
      | Some ts \<Rightarrow>
          (case run rd (Start []) ts of
             Some (Finished v) \<Rightarrow> Normal v
           | _ \<Rightarrow> Throw SyntaxError))"


section \<open>Labelled values\<close>

text \<open>
  Modelled from the spec: the type \<open>TaintedValue\<close> of section 3 (a payload, a set of
  provenance labels, a hop counter). The repository declares no such type: its relays,
  transforms and chains forward whatever value they are given, so the generic functions
  below are instantiated with labelled values wherever a statement speaks of labels.
\<close>

datatype category = HTTP_BODY | HTTP_QUERY | HTTP_HEADER | HTTP_PARAM | COOKIE | SESSION
  | FILE | WEBSOCKET | EXTERNAL_API | ENV | DNS | SOCKET | WEBHOOK | JWT_CLAIM
  | SAML_ASSERTION

record 'p tainted_value =
  payload :: 'p
  labels :: "category set"
  hopCount :: nat

text \<open>
  Where the code looks into the value it is given (a template literal converts it to a
  string, \<open>Buffer.from\<close> dispatches on its type), the value is either a primitive string,
  which has no properties and so carries no label, or a labelled value: a plain object
  with the three properties above and no method of its own, so that it answers with the
  methods of \<open>Object.prototype\<close>.
\<close>

datatype 'p data = Bare jsstring | Tagged "'p tainted_value"

fun labels_of :: "'p data \<Rightarrow> category set" where
  "labels_of (Bare s) = {}"
| "labels_of (Tagged v) = labels v"

text \<open>
  \<open>ToString\<close>: a string is its own conversion; a plain object is converted by
  \<open>Object.prototype.toString\<close>, which answers \<open>"[object Object]"\<close>.
\<close>

fun ToString :: "'p data \<Rightarrow> jsstring" where
  "ToString (Bare s) = s"
| "ToString (Tagged v) = js ''[object Object]''"

section \<open>TaintRelay\<close>

text \<open>
  \<^verbatim>\<open>
  static passthrough(data) { return data; }
  static arrayRelay(data) { const arr = [data]; return arr[0]; }
  static objectRelay(data) { const obj = { value: data }; return obj.value; }
  static async asyncRelay(data) {
      return new Promise(resolve => { setTimeout(() => resolve(data), 0); });
  }
  static callbackRelay(data, callback) { callback(data); }
  static multiHopRelay(data) {
      const step1 = this.passthrough(data);
      const step2 = this.arrayRelay(step1);
      const step3 = this.objectRelay(step2);
      return step3;
  }
  \<close>
  The relays are generic in the data they forward. The object literal of \<open>objectRelay\<close> is a
  record with the one field \<open>value\<close>; index 0 is in range of the one-element array literal
  of \<open>arrayRelay\<close>; the timer of \<open>asyncRelay\<close> fires on a later turn of the event loop, which
  the model takes as an argument.
\<close>

record 'a value_holder =
  "value" :: 'a

definition passthrough :: "'a \<Rightarrow> 'a" where
  "passthrough data = data"

definition arrayRelay :: "'a \<Rightarrow> 'a" where
  "arrayRelay data = (let arr = [data] in arr ! 0)"

definition objectRelay :: "'a \<Rightarrow> 'a" where
  "objectRelay data = (let obj = \<lparr>value = data\<rparr> in value obj)"

text \<open>
  The argument of \<open>asyncRelay\<close> is handed to the \<open>resolve\<close> function of a promise, which
  tells a thenable (a promise, or any object with a \<open>then\<close> method) from every other value.
  A thenable is represented by the way it settles; one whose \<open>then\<close> throws counts as
  rejected with what was thrown.
\<close>

datatype ('e, 'a) relayed = Plain 'a | Thenable "('e, 'a) promise"

text \<open>
  \<open>resolve(x)\<close>, called on turn \<open>now\<close>: a value that is not a thenable fulfils the
  promise with it; a thenable is adopted, and the promise settles as the thenable does,
  not before the call.
\<close>

fun resolve :: "nat \<Rightarrow> ('e, 'a) relayed \<Rightarrow> ('e, 'a) promise" where
  "resolve now (Plain x) = Fulfilled now x"
| "resolve now (Thenable (Fulfilled t x)) = Fulfilled (max now t) x"
| "resolve now (Thenable (Rejected t e)) = Rejected (max now t) e"
| "resolve now (Thenable Pending) = Pending"

text \<open>
  The timer callback calls \<open>resolve(data)\<close> on turn \<open>turn\<close>; the promise so made is the
  value the \<open>async\<close> method returns, and the promise of the \<open>async\<close> method, resolved with
  it at the call, adopts it.
\<close>

definition asyncRelay :: "nat \<Rightarrow> ('e, 'a) relayed \<Rightarrow> ('e, 'a) promise" where
  "asyncRelay turn data =
     (let made = resolve turn data
      in resolve 0 (Thenable made))"

definition callbackRelay :: "'a \<Rightarrow> ('a \<Rightarrow> ('e, 'r) completion) \<Rightarrow> ('e, unit) completion" where
  "callbackRelay data callback =
     (case callback data of Throw e \<Rightarrow> Throw e | Normal r \<Rightarrow> Normal ())"

definition multiHopRelay :: "'a \<Rightarrow> 'a" where
  "multiHopRelay data =
     (let step1 = passthrough data;
          step2 = arrayRelay step1;
          step3 = objectRelay step2
      in step3)"

section \<open>TaintTransform\<close>

text \<open>
  \<^verbatim>\<open>
  static concat(prefix, taintedData, suffix) {
      return `${prefix}${taintedData}${suffix}`;
  }
  \<close>
  The template literal converts each of the three arguments to a string and joins the
  strings: the result is a primitive string.
\<close>

definition concat_str :: "'p data \<Rightarrow> 'p data \<Rightarrow> 'p data \<Rightarrow> 'p data" where
  "concat_str pre taintedData suf = Bare (ToString pre @ ToString taintedData @ ToString suf)"




section \<open>ChainBuilder\<close>

text \<open>
  A transformer is a function that returns or throws; a sink is a function that throws, or
  returns a promise (a sink that returns a plain value counts as one returning a promise
  already fulfilled with it, which is what \<open>await\<close> and \<open>Promise.all\<close> make of it). The
  result of a chain is the promise the \<open>async\<close> method returns, together with the record of
  the sink invocations made: the arguments the sinks were called with, in call order.
\<close>

type_synonym ('e, 'a, 'b) transformer = "'a \<Rightarrow> ('e, 'b) completion"
type_synonym ('e, 'a, 'r) sink = "'a \<Rightarrow> ('e, ('e, 'r) promise) completion"

record ('e, 'a, 'r) chain_run =
  outcome :: "('e, 'r) promise"
  sink_calls :: "'a list"

text \<open>
  An exception thrown inside an \<open>async\<close> method rejects the promise it returns, at once.
\<close>

definition settle :: "('e, ('e, 'r) promise) completion \<Rightarrow> ('e, 'r) promise" where
  "settle c = (case c of Throw e \<Rightarrow> Rejected 0 e | Normal p \<Rightarrow> p)"

text \<open>
  \<^verbatim>\<open>
  static async simpleChain(source, transformer, sink) {
      const transformed = transformer(source);
      return await sink(transformed);
  }
  \<close>
\<close>

definition simpleChain ::
  "'a \<Rightarrow> ('e, 'a, 'b) transformer \<Rightarrow> ('e, 'b, 'r) sink \<Rightarrow> ('e, 'b, 'r) chain_run" where
  "simpleChain source transformer sink =
     (case transformer source of
        Throw e \<Rightarrow> \<lparr>outcome = Rejected 0 e, sink_calls = []\<rparr>
      | Normal transformed \<Rightarrow> \<lparr>outcome = settle (sink transformed), sink_calls = [transformed]\<rparr>)"

text \<open>
  \<^verbatim>\<open>
  static async parallelSinks(source, sinks) {
      return await Promise.all(sinks.map(sink => sink(source)));
  }
  \<close>
  \<open>Array.prototype.map\<close> calls the sinks one after the other, in list order, without
  awaiting anything; a sink that throws ends the loop, and the sinks after it are not
  called. \<open>invoke_all\<close> returns the promises obtained and the number of sinks called.
\<close>

fun invoke_all ::
  "'a \<Rightarrow> ('e, 'a, 'r) sink list \<Rightarrow> ('e, ('e, 'r) promise list) completion \<times> nat" where
  "invoke_all source [] = (Normal [], 0)"
| "invoke_all source (sink # sinks) =
     (case sink source of
        Throw e \<Rightarrow> (Throw e, 1)
      | Normal p \<Rightarrow>
          (case invoke_all source sinks of
             (Throw e, n) \<Rightarrow> (Throw e, Suc n)
           | (Normal ps, n) \<Rightarrow> (Normal (p # ps), Suc n)))"

definition parallelSinks ::
  "'a \<Rightarrow> ('e, 'a, 'r) sink list \<Rightarrow> ('e, 'a, 'r list) chain_run" where
  "parallelSinks source sinks =
     (case invoke_all source sinks of
        (Throw e, n) \<Rightarrow> \<lparr>outcome = Rejected 0 e, sink_calls = replicate n source\<rparr>
      | (Normal ps, n) \<Rightarrow> \<lparr>outcome = promise_all ps, sink_calls = replicate n source\<rparr>)"

text \<open>
  \<^verbatim>\<open>
  static async sequentialSinks(source, sink1, sink2) {
      const result1 = await sink1(source);
      return await sink2(result1);
  }
  static async mergedSources(sources, merger, sink) {
      const merged = merger(...sources);
      return await sink(merged);
  }
  \<close>
\<close>

definition sequentialSinks ::
  "'a \<Rightarrow> ('e, 'a, 'a) sink \<Rightarrow> ('e, 'a, 'r) sink \<Rightarrow> ('e, 'a, 'r) chain_run" where
  "sequentialSinks source sink1 sink2 =
     (case settle (sink1 source) of
        Rejected t e \<Rightarrow> \<lparr>outcome = Rejected t e, sink_calls = [source]\<rparr>
      | Pending \<Rightarrow> \<lparr>outcome = Pending, sink_calls = [source]\<rparr>
      | Fulfilled t result1 \<Rightarrow>
          \<lparr>outcome = settle (sink2 result1), sink_calls = [source, result1]\<rparr>)"

definition mergedSources ::
  "'a list \<Rightarrow> ('e, 'a list, 'b) transformer \<Rightarrow> ('e, 'b, 'r) sink \<Rightarrow> ('e, 'b, 'r) chain_run" where
  "mergedSources sources merger sink =
     (case merger sources of
        Throw e \<Rightarrow> \<lparr>outcome = Rejected 0 e, sink_calls = []\<rparr>
      | Normal merged \<Rightarrow> \<lparr>outcome = settle (sink merged), sink_calls = [merged]\<rparr>)"

section \<open>Example operators and sinks\<close>

text \<open>Example operators and sinks for the closed statements below.\<close>

definition strip_labels :: "(unit, jsstring tainted_value, jsstring tainted_value) transformer" where
  "strip_labels v = Normal (v\<lparr>labels := {}\<rparr>)"

definition echo_sink :: "(unit, 'a, 'a) sink" where
  "echo_sink v = Normal (Fulfilled 1 v)"

definition rejecting_sink :: "(unit, 'a, 'a) sink" where
  "rejecting_sink v = Normal (Rejected 1 ())"

definition append_la :: "(unit, jsstring data, jsstring data) transformer" where
  "append_la s = Normal (concat_str (Bare []) s (Bare (js '' -la'')))"

definition ls_from_body :: "jsstring tainted_value" where
  "ls_from_body = \<lparr>payload = js ''ls'', labels = {HTTP_BODY}, hopCount = 0\<rparr>"

section \<open>ContextPropagation\<close>

text \<open>
  \<^verbatim>\<open>
  class ContextPropagation {
      constructor() { this.context = {}; }
      set(key, value) { this.context[key] = value; }
      get(key) { return this.context[key]; }
  }
  \<close>
  The store is an ordinary object created by the literal \<open>{}\<close>: it has own properties and
  a prototype, which is \<open>Object.prototype\<close> at first. Keys are property keys (strings).
  Stored values are plain data: primitives, and objects made of own data properties whose
  prototype is \<open>Object.prototype\<close>, as \<open>JSON.parse\<close> and object literals build them.
  A read can also yield an intrinsic object: \<open>Object.prototype\<close> itself or one of its
  built-in methods.
\<close>

datatype jsval = Undefined | Null | Boolean bool | Number int | String jsstring
  | Object "(jsstring \<times> jsval) list"

datatype prototype = ObjectPrototype | NullPrototype | PlainObject "(jsstring \<times> jsval) list"

datatype js_read = Value jsval | TheObjectPrototype | BuiltinFunction jsstring

record js_object =
  own :: "(jsstring \<times> jsval) list"
  proto :: prototype

text \<open>The data properties of \<open>Object.prototype\<close>; its one accessor property is \<open>__proto__\<close>.\<close>

definition object_prototype_methods :: "jsstring list" where
  "object_prototype_methods =
     [js ''constructor'', js ''__defineGetter__'', js ''__defineSetter__'',
      js ''hasOwnProperty'', js ''__lookupGetter__'', js ''__lookupSetter__'',
      js ''isPrototypeOf'', js ''propertyIsEnumerable'', js ''toString'', js ''valueOf'',
      js ''toLocaleString'']"

text \<open>
  A property lookup that reaches \<open>Object.prototype\<close>: the getter of \<open>__proto__\<close> returns the
  prototype of the object the lookup started from.
\<close>

definition object_prototype_get :: "js_object \<Rightarrow> jsstring \<Rightarrow> js_read" where
  "object_prototype_get receiver key =
     (if key = js ''__proto__'' then
        (case proto receiver of
           ObjectPrototype \<Rightarrow> TheObjectPrototype
         | PlainObject props \<Rightarrow> Value (Object props)
         | NullPrototype \<Rightarrow> Value Null)
      else if key \<in> set object_prototype_methods then BuiltinFunction key
      else Value Undefined)"

text \<open>\<open>obj[key]\<close>: the own property, else the property found along the prototype chain.\<close>

definition obj_get :: "js_object \<Rightarrow> jsstring \<Rightarrow> js_read" where
  "obj_get obj key =
     (case map_of (own obj) key of
        Some v \<Rightarrow> Value v
      | None \<Rightarrow>
          (case proto obj of
             NullPrototype \<Rightarrow> Value Undefined
           | ObjectPrototype \<Rightarrow> object_prototype_get obj key
           | PlainObject props \<Rightarrow>
               (case map_of props key of
                  Some v \<Rightarrow> Value v
                | None \<Rightarrow> object_prototype_get obj key)))"

text \<open>
  \<open>obj[key] = v\<close>: an own property is overwritten; otherwise the prototype chain decides. An
  inherited data property (all of them are writable here) or no property at all lets the
  assignment create an own property; the inherited accessor \<open>__proto__\<close> runs its setter
  instead, which replaces the prototype when \<open>v\<close> is an object or \<open>null\<close> and does nothing
  for any other \<open>v\<close>.
\<close>

definition define_own :: "js_object \<Rightarrow> jsstring \<Rightarrow> jsval \<Rightarrow> js_object" where
  "define_own obj key v = obj\<lparr>own := AList.update key v (own obj)\<rparr>"

definition object_prototype_set :: "js_object \<Rightarrow> jsstring \<Rightarrow> jsval \<Rightarrow> js_object" where
  "object_prototype_set receiver key v =
     (if key = js ''__proto__'' then
        (case v of
           Object props \<Rightarrow> receiver\<lparr>proto := PlainObject props\<rparr>
         | Null \<Rightarrow> receiver\<lparr>proto := NullPrototype\<rparr>
         | _ \<Rightarrow> receiver)
      else define_own receiver key v)"

definition obj_set :: "js_object \<Rightarrow> jsstring \<Rightarrow> jsval \<Rightarrow> js_object" where
  "obj_set obj key v =
     (if key \<in> fst ` set (own obj) then define_own obj key v
      else
        (case proto obj of
           NullPrototype \<Rightarrow> define_own obj key v
         | ObjectPrototype \<Rightarrow> object_prototype_set obj key v
         | PlainObject props \<Rightarrow>
             (if key \<in> fst ` set props then define_own obj key v
              else object_prototype_set obj key v)))"

record ContextPropagation =
  "context" :: js_object

definition new_ContextPropagation :: ContextPropagation where
  "new_ContextPropagation = \<lparr>context = \<lparr>own = [], proto = ObjectPrototype\<rparr>\<rparr>"

definition ContextPropagation_set :: "ContextPropagation \<Rightarrow> jsstring \<Rightarrow> jsval \<Rightarrow> ContextPropagation" where
  "ContextPropagation_set this key v = this\<lparr>context := obj_set (context this) key v\<rparr>"

definition ContextPropagation_get :: "ContextPropagation \<Rightarrow> jsstring \<Rightarrow> js_read" where
  "ContextPropagation_get this key = obj_get (context this) key"

definition object_prototype_keys :: "jsstring list" where
  "object_prototype_keys = js ''__proto__'' # object_prototype_methods"

text \<open>The store reached from a new one by a sequence of \<open>set\<close> calls.\<close>

definition after_sets :: "(jsstring \<times> jsval) list \<Rightarrow> ContextPropagation" where
  "after_sets ops = foldl (\<lambda>this (key, v). ContextPropagation_set this key v) new_ContextPropagation ops"

section \<open>sources/HttpSource.js: JwtSource\<close>

text \<open>
  \<^verbatim>\<open>
  static extractClaims(token) {
      if (!token) return null;
      try {
          const parts = token.split('.');
          if (parts.length !== 3) return null;
          const payload = Buffer.from(parts[1], 'base64').toString();
          return JSON.parse(payload);
      } catch (e) {
          return null;
      }
  }
  \<close>
  \<open>!token\<close>: the values that convert to \<open>false\<close>.
\<close>

definition falsy :: "jsval \<Rightarrow> bool" where
  "falsy v = (case v of Undefined \<Rightarrow> True | Null \<Rightarrow> True | Boolean b \<Rightarrow> \<not> b
     | Number n \<Rightarrow> n = 0 | String s \<Rightarrow> s = [] | Object props \<Rightarrow> False)"

text \<open>\<open>String.prototype.split\<close> with a separator of one code unit.\<close>

fun split_on :: "code_unit \<Rightarrow> jsstring \<Rightarrow> jsstring list" where
  "split_on c [] = [[]]"
| "split_on c (x # xs) =
     (if x = c then [] # split_on c xs
      else (case split_on c xs of p # ps \<Rightarrow> (x # p) # ps | [] \<Rightarrow> [[x]]))"

text \<open>
  \<open>token.split('.')\<close>: only a string has the method; on any other value the property \<open>split\<close>
  is not a function (it is missing, or a data property holding plain data) and the call
  throws a \<open>TypeError\<close>.
\<close>

definition call_split :: "jsval \<Rightarrow> code_unit \<Rightarrow> (js_error, jsstring list) completion" where
  "call_split v c = (case v of String s \<Rightarrow> Normal (split_on c s) | _ \<Rightarrow> Throw TypeError)"

text \<open>\<open>Buffer.from(segment, 'base64').toString()\<close>, which never throws on a string.\<close>

definition decode_segment :: "jsstring \<Rightarrow> jsstring" where
  "decode_segment segment = Buffer_toString_utf8 (Buffer_from_base64 segment)"

text \<open>
  The body of the \<open>try\<close> block, and the function with its \<open>catch\<close>. Index 1 is in range
  of a list of three parts, and 46 is the code unit of the full stop. \<open>rd\<close> is the
  conversion of a number literal to a number that \<open>JSON.parse\<close> uses.
\<close>

definition extractClaims_try :: "(jsstring \<Rightarrow> 'n) \<Rightarrow> jsval \<Rightarrow> (js_error, 'n json) completion" where
  "extractClaims_try rd token =
     (case call_split token 46 of
        Throw e \<Rightarrow> Throw e
      | Normal parts \<Rightarrow>
          if length parts \<noteq> 3 then Normal JNull
          else
            (let payload_text = decode_segment (parts ! 1)
             in JSON_parse rd payload_text))"

definition extractClaims :: "(jsstring \<Rightarrow> 'n) \<Rightarrow> jsval \<Rightarrow> (js_error, 'n json) completion" where
  "extractClaims rd token =
     (if falsy token then Normal JNull
      else
        (case extractClaims_try rd token of
           Throw e \<Rightarrow> Normal JNull
         | Normal claims \<Rightarrow> Normal claims))"

section \<open>Example values\<close>


definition literal_number :: "jsstring \<Rightarrow> jsstring" where
  "literal_number n = n"


section \<open>Properties of the sanitizers\<close>

lemma replace_str_single_count:
  "count_list (replace_str [c] [] s) d =
     (if d = c then count_list s c - 1 else count_list s d)"
  by (induction s) auto

lemma replace_str_single_first:
  "c \<in> set s \<Longrightarrow>
   replace_str [c] [] s = takeWhile (\<lambda>x. x \<noteq> c) s @ tl (dropWhile (\<lambda>x. x \<noteq> c) s)"
  by (induction s) auto

lemma foldl_replace_count:
  "distinct cs \<Longrightarrow>
   count_list (foldl (\<lambda>inp ch. replace_str ch [] inp) s (map (\<lambda>c. [c]) cs)) d =
     (if d \<in> set cs then count_list s d - 1 else count_list s d)"
proof (induction cs arbitrary: s)
  case Nil
  show ?case by simp
next
  case (Cons c cs)
  have d: "distinct cs" and c: "c \<notin> set cs" using Cons.prems by auto
  show ?case
    using Cons.IH [OF d, of "replace_str [c] [] s"] c
    by (auto simp: replace_str_single_count)
qed

lemma blacklist_units: "blacklist = map (\<lambda>c. [c]) blacklist_units"
  by (simp add: blacklist_def blacklist_units_def js_def)

lemma distinct_blacklist_units: "distinct blacklist_units"
  by (simp add: blacklist_units_def)

lemma sanitizeCommand_count:
  "count_list (sanitizeCommand input) d =
     (if [d] \<in> set blacklist then count_list input d - 1 else count_list input d)"
proof -
  have "([d] \<in> set blacklist) = (d \<in> set blacklist_units)"
    by (auto simp: blacklist_units)
  then show ?thesis
    unfolding sanitizeCommand_def blacklist_units
    by (simp add: foldl_replace_count [OF distinct_blacklist_units])
qed

lemma replace_str_remove1: "replace_str [c] [] s = remove1 c s"
  by (induction s) auto

lemma sanitizeCommand_remove1:
  "sanitizeCommand input = foldl (\<lambda>inp c. remove1 c inp) input blacklist_units"
proof -
  have "foldl (\<lambda>inp ch. replace_str ch [] inp) s (map (\<lambda>c. [c]) cs) =
      foldl (\<lambda>inp c. remove1 c inp) s cs" for s and cs :: "code_unit list"
    by (induction cs arbitrary: s) (simp_all add: replace_str_remove1)
  then show ?thesis
    by (simp add: sanitizeCommand_def blacklist_units)
qed

text \<open>
  \<open>first_removed C s\<close> walks \<open>s\<close> once and drops the first occurrence of every member of \<open>C\<close>;
  it is the closed form of the loop of \<open>sanitizeCommand\<close>.
\<close>

fun first_removed :: "'a set \<Rightarrow> 'a list \<Rightarrow> 'a list" where
  "first_removed C [] = []"
| "first_removed C (x # xs) =
     (if x \<in> C then first_removed (C - {x}) xs else x # first_removed C xs)"

lemma first_removed_remove1:
  "c \<notin> C \<Longrightarrow> first_removed C (remove1 c s) = first_removed (insert c C) s"
proof (induction s arbitrary: C)
  case Nil
  show ?case by simp
next
  case (Cons x xs)
  show ?case
  proof (cases "x = c")
    case True
    with Cons.prems show ?thesis by simp
  next
    case False
    have "first_removed (C - {x}) (remove1 c xs) = first_removed (insert c (C - {x})) xs"
      using Cons.prems by (intro Cons.IH) simp
    moreover have "insert c (C - {x}) = insert c C - {x}"
      using False by auto
    moreover have "first_removed C (remove1 c xs) = first_removed (insert c C) xs"
      using Cons.prems by (rule Cons.IH)
    ultimately show ?thesis
      using False by simp
  qed
qed

lemma foldl_remove1_first_removed:
  "distinct cs \<Longrightarrow> foldl (\<lambda>inp d. remove1 d inp) s cs = first_removed (set cs) s"
proof (induction cs arbitrary: s)
  case Nil
  have "first_removed {} s = s" for s :: "'a list"
    by (induction s) simp_all
  then show ?case by simp
next
  case (Cons c cs)
  then show ?case
    by (simp add: first_removed_remove1)
qed

lemma all_before_Cons:
  "(\<forall>j<Suc i. (x # xs) ! j \<noteq> y) = (x \<noteq> y \<and> (\<forall>j<i. xs ! j \<noteq> y))"
  by (simp add: All_less_Suc2)

lemma first_removed_nths:
  "first_removed C s = nths s {i. \<not> (s ! i \<in> C \<and> (\<forall>j<i. s ! j \<noteq> s ! i))}"
proof (induction s arbitrary: C)
  case Nil
  show ?case by simp
next
  case (Cons x xs)
  have s: "{j. Suc j \<in> {i. \<not> ((x # xs) ! i \<in> C \<and> (\<forall>j<i. (x # xs) ! j \<noteq> (x # xs) ! i))}} =
          {i. \<not> (xs ! i \<in> C \<and> x \<noteq> xs ! i \<and> (\<forall>j<i. xs ! j \<noteq> xs ! i))}"
    by (simp only: all_before_Cons mem_Collect_eq nth_Cons_Suc)
  show ?case
  proof (cases "x \<in> C")
    case True
    have "{i. \<not> (xs ! i \<in> C \<and> x \<noteq> xs ! i \<and> (\<forall>j<i. xs ! j \<noteq> xs ! i))} =
          {i. \<not> (xs ! i \<in> C - {x} \<and> (\<forall>j<i. xs ! j \<noteq> xs ! i))}"
      by auto
    with True s show ?thesis
      by (simp add: nths_Cons Cons.IH)
  next
    case False
    have "{i. \<not> (xs ! i \<in> C \<and> x \<noteq> xs ! i \<and> (\<forall>j<i. xs ! j \<noteq> xs ! i))} =
          {i. \<not> (xs ! i \<in> C \<and> (\<forall>j<i. xs ! j \<noteq> xs ! i))}"
      using False by auto
    with False s show ?thesis
      by (simp add: nths_Cons Cons.IH)
  qed
qed

lemma sanitizeCommand_positions:
  "sanitizeCommand input =
     nths input {i. \<not> ([input ! i] \<in> set blacklist \<and> (\<forall>j<i. input ! j \<noteq> input ! i))}"
proof -
  have b: "\<And>x. ([x] \<in> set blacklist) = (x \<in> set blacklist_units)"
    by (auto simp: blacklist_units)
  show ?thesis
    by (simp add: sanitizeCommand_remove1
        foldl_remove1_first_removed [OF distinct_blacklist_units] first_removed_nths b)
qed

lemma set_sanitizeCommand: "set (sanitizeCommand input) \<subseteq> set input"
  unfolding sanitizeCommand_positions by (rule set_nths_subset)

lemma filter_remove1_other: "\<not> P d \<Longrightarrow> filter P (remove1 d s) = filter P s"
  by (induction s) auto

lemma filter_remove1_same: "P c \<Longrightarrow> filter P (remove1 c s) = remove1 c (filter P s)"
  by (induction s) auto

lemma filter_foldl_remove1:
  assumes "distinct cs" and "P c" and "\<forall>d\<in>set cs. d \<noteq> c \<longrightarrow> \<not> P d"
  shows "filter P (foldl (\<lambda>inp d. remove1 d inp) s cs) =
         (if c \<in> set cs then remove1 c (filter P s) else filter P s)"
  using assms
proof (induction cs arbitrary: s)
  case Nil
  show ?case by simp
next
  case (Cons d cs)
  have d: "distinct cs" and n: "d \<notin> set cs" using Cons.prems(1) by auto
  have r: "\<forall>d\<in>set cs. d \<noteq> c \<longrightarrow> \<not> P d" using Cons.prems(3) by auto
  have ih: "filter P (foldl (\<lambda>inp d. remove1 d inp) (remove1 d s) cs) =
         (if c \<in> set cs then remove1 c (filter P (remove1 d s)) else filter P (remove1 d s))"
    using d Cons.prems(2) r by (rule Cons.IH)
  show ?case
  proof (cases "d = c")
    case True
    then have "c \<notin> set cs" using n by simp
    with ih True show ?thesis
      using Cons.prems(2) by (simp add: filter_remove1_same)
  next
    case False
    then have "\<not> P d" using Cons.prems(3) by auto
    with ih False show ?thesis
      by (simp add: filter_remove1_other)
  qed
qed

lemma sanitizeCommand_first:
  assumes "[c] \<in> set blacklist" and "c \<notin> set pre"
  shows "filter (\<lambda>x. x = c \<or> [x] \<notin> set blacklist) (sanitizeCommand (pre @ c # post)) =
         filter (\<lambda>x. x = c \<or> [x] \<notin> set blacklist) (pre @ post)"
proof -
  let ?kept = "\<lambda>x. x = c \<or> [x] \<notin> set blacklist"
  have b: "\<And>x. ([x] \<in> set blacklist) = (x \<in> set blacklist_units)"
    by (auto simp: blacklist_units)
  have c: "c \<in> set blacklist_units" using assms(1) b by simp
  have p: "?kept c" by simp
  have o: "\<forall>d\<in>set blacklist_units. d \<noteq> c \<longrightarrow> \<not> ?kept d"
    by (simp add: b)
  have "filter ?kept (sanitizeCommand (pre @ c # post)) =
      remove1 c (filter ?kept (pre @ c # post))"
    unfolding sanitizeCommand_remove1
    using filter_foldl_remove1 [where P = ?kept and c = c and cs = blacklist_units,
        OF distinct_blacklist_units p o] c by simp
  also have "\<dots> = filter ?kept pre @ filter ?kept post"
    using assms(2) by (simp add: remove1_append)
  finally show ?thesis by simp
qed

lemma sanitizeCommand_single:
  assumes "[c] \<in> set blacklist" and "c \<notin> set pre"
    and "\<forall>x\<in>set (pre @ post). x = c \<or> [x] \<notin> set blacklist"
  shows "sanitizeCommand (pre @ c # post) = pre @ post"
proof -
  let ?kept = "\<lambda>x. x = c \<or> [x] \<notin> set blacklist"
  have "\<forall>x\<in>set (pre @ c # post). ?kept x"
    using assms(3) by auto
  with set_sanitizeCommand [of "pre @ c # post"]
  have "\<forall>x\<in>set (sanitizeCommand (pre @ c # post)). ?kept x" by blast
  then have "filter ?kept (sanitizeCommand (pre @ c # post)) = sanitizeCommand (pre @ c # post)"
    by simp
  moreover have "filter ?kept (pre @ post) = pre @ post"
    using assms(3) by simp
  ultimately show ?thesis
    using sanitizeCommand_first [OF assms(1,2), of post] by simp
qed

text \<open>
  C8. \<open>sanitizeCommand\<close> removes the first occurrence of each blacklisted character and nothing
  else. The result is the input without exactly those positions that hold a blacklisted
  character no earlier position holds, every other position kept in order. Seen from one
  blacklisted character \<open>c\<close> that occurs first after \<open>pre\<close>: the result restricted to \<open>c\<close> and
  the characters outside the blacklist is \<open>pre @ post\<close> so restricted, and is \<open>pre @ post\<close>
  itself when no other blacklisted character occurs. Consequently the number of occurrences of
  a blacklisted character drops by exactly one, and an input with two or more occurrences of a
  blacklisted character still holds that character afterwards; \<open>sanitizeCommand("a;;b")\<close> is
  \<open>"a;b"\<close> and \<open>sanitizeCommand(";a;b")\<close> is \<open>"a;b"\<close>.
\<close>

theorem sanitizeCommand_first_occurrence_only:
  "sanitizeCommand input =
     nths input {i. \<not> ([input ! i] \<in> set blacklist \<and> (\<forall>j<i. input ! j \<noteq> input ! i))} \<and>
   ([c] \<in> set blacklist \<and> c \<notin> set pre \<longrightarrow>
      filter (\<lambda>x. x = c \<or> [x] \<notin> set blacklist) (sanitizeCommand (pre @ c # post)) =
      filter (\<lambda>x. x = c \<or> [x] \<notin> set blacklist) (pre @ post)) \<and>
   ([c] \<in> set blacklist \<and> c \<notin> set pre \<and>
    (\<forall>x\<in>set (pre @ post). x = c \<or> [x] \<notin> set blacklist) \<longrightarrow>
      sanitizeCommand (pre @ c # post) = pre @ post) \<and>
   ([c] \<in> set blacklist \<and> 2 \<le> count_list input c \<longrightarrow>
      c \<in> set (sanitizeCommand input) \<and>
      count_list (sanitizeCommand input) c = count_list input c - 1) \<and>
   sanitizeCommand (js ''a;;b'') = js ''a;b'' \<and>
   sanitizeCommand (js '';a;b'') = js ''a;b''"
proof -
  have p: "sanitizeCommand input =
     nths input {i. \<not> ([input ! i] \<in> set blacklist \<and> (\<forall>j<i. input ! j \<noteq> input ! i))}"
    by (rule sanitizeCommand_positions)
  have f: "[c] \<in> set blacklist \<and> c \<notin> set pre \<longrightarrow>
      filter (\<lambda>x. x = c \<or> [x] \<notin> set blacklist) (sanitizeCommand (pre @ c # post)) =
      filter (\<lambda>x. x = c \<or> [x] \<notin> set blacklist) (pre @ post)"
    using sanitizeCommand_first by blast
  have s: "[c] \<in> set blacklist \<and> c \<notin> set pre \<and>
    (\<forall>x\<in>set (pre @ post). x = c \<or> [x] \<notin> set blacklist) \<longrightarrow>
      sanitizeCommand (pre @ c # post) = pre @ post"
    using sanitizeCommand_single by blast
  have n: "[c] \<in> set blacklist \<and> 2 \<le> count_list input c \<longrightarrow>
      c \<in> set (sanitizeCommand input) \<and>
      count_list (sanitizeCommand input) c = count_list input c - 1"
  proof (intro impI, elim conjE)
    assume b: "[c] \<in> set blacklist" and t: "2 \<le> count_list input c"
    have n: "count_list (sanitizeCommand input) c = count_list input c - 1"
      using b by (simp add: sanitizeCommand_count)
    have "count_list (sanitizeCommand input) c \<noteq> 0"
      using n t by simp
    then have "c \<in> set (sanitizeCommand input)"
      by (cases "c \<in> set (sanitizeCommand input)") simp_all
    with n show "c \<in> set (sanitizeCommand input) \<and>
      count_list (sanitizeCommand input) c = count_list input c - 1" by simp
  qed
  have e: "sanitizeCommand (js ''a;;b'') = js ''a;b''"
    by (simp add: sanitizeCommand_def blacklist_def js_def)
  have e': "sanitizeCommand (js '';a;b'') = js ''a;b''"
    by (simp add: sanitizeCommand_def blacklist_def js_def)
  from p f s n e e' show ?thesis by blast
qed

theorem sanitizeCommand_first_occurrence_only_witness:
  "[59] \<in> set blacklist \<and> 59 \<notin> set (js ''a'') \<and>
   list_all (\<lambda>x. x = 59 \<or> [x] \<notin> set blacklist) (js ''a'' @ js '';b'') \<and>
   2 \<le> count_list (js ''a;;b'') 59 \<and>
   sanitizeCommand (js ''a'' @ 59 # js '';b'') = js ''a'' @ js '';b'' \<and>
   59 \<in> set (sanitizeCommand (js ''a;;b'')) \<and>
   count_list (sanitizeCommand (js ''a;;b'')) 59 = 1"
proof -
  have b: "[59] \<in> set blacklist"
    by (simp add: blacklist_def js_def)
  have m: "59 \<notin> set (js ''a'')"
    by (simp add: js_def)
  have o: "list_all (\<lambda>x. x = 59 \<or> [x] \<notin> set blacklist) (js ''a'' @ js '';b'')"
    by (simp add: blacklist_def js_def)
  have n: "2 \<le> count_list (js ''a;;b'') 59"
    by (simp add: js_def)
  show ?thesis
    using b m o n
      sanitizeCommand_first_occurrence_only [of "js ''a;;b''" 59 "js ''a''" "js '';b''",
        THEN conjunct2]
    by (simp add: list_all_iff js_def)
qed

text \<open>
  C9. \<open>sanitizePath\<close> is not idempotent: on \<open>"....//etc"\<close> the single pass returns
  \<open>"../etc"\<close>, which still contains \<open>"../"\<close>, and a second pass returns \<open>"etc"\<close>.
\<close>

theorem sanitizePath_not_idempotent:
  "sanitizePath (js ''....//etc'') = js ''../etc'' \<and>
   (\<exists>x. str_includes (sanitizePath x) (js ''../'') \<and>
        sanitizePath (sanitizePath x) \<noteq> sanitizePath x)"
proof -
  have e: "sanitizePath (js ''....//etc'') = js ''../etc''"
    by (simp add: sanitizePath_def js_def)
  have i: "str_includes (js ''../etc'') (js ''../'')"
    by (simp add: js_def)
  have "sanitizePath (js ''../etc'') = js ''etc''"
    by (simp add: sanitizePath_def js_def)
  then have "sanitizePath (js ''../etc'') \<noteq> js ''../etc''"
    by (simp add: js_def)
  with e i show ?thesis
    by metis
qed

section \<open>Properties of the relays and chains\<close>

text \<open>
  C1, as the code has it. \<open>asyncRelay\<close> does not resolve to every input: \<open>resolve\<close> adopts
  a promise it is handed, so for a promise that rejects \<open>asyncRelay\<close> rejects with the same
  reason and is never fulfilled, and for a promise that never settles it never settles.
\<close>

theorem asyncRelay_adopts_thenable:
  "asyncRelay 1 (Thenable (Rejected 0 ())) =
     (Rejected 1 () :: (unit, jsstring tainted_value) promise) \<and>
   (\<forall>t w. asyncRelay 1 (Thenable (Rejected 0 ())) \<noteq>
     (Fulfilled t w :: (unit, jsstring tainted_value) promise)) \<and>
   asyncRelay 1 (Thenable Pending) = (Pending :: (unit, jsstring tainted_value) promise)"
  by (simp add: asyncRelay_def)

text \<open>
  C1, amended. \<open>passthrough\<close>, \<open>arrayRelay\<close>, \<open>objectRelay\<close> and \<open>multiHopRelay\<close> return
  their input unchanged, for every input \<open>x\<close>, so a labelled value \<open>v\<close> comes out of each
  with at least the labels it went in with. \<open>asyncRelay\<close> resolves to its input, on the
  turn of its timer, for every input that is not a thenable, so a labelled value is
  fulfilled with at least its labels; a thenable is adopted instead: \<open>asyncRelay\<close> then
  fulfils with the value the thenable fulfils with, rejects with the reason it rejects
  with, and stays pending while it does.
\<close>

theorem relay_label_monotonicity:
  "passthrough x = x \<and> arrayRelay x = x \<and> objectRelay x = x \<and> multiHopRelay x = x \<and>
   labels v \<subseteq> labels (passthrough v) \<and> labels v \<subseteq> labels (arrayRelay v) \<and>
   labels v \<subseteq> labels (objectRelay v) \<and> labels v \<subseteq> labels (multiHopRelay v) \<and>
   asyncRelay turn (Plain x) = Fulfilled turn x \<and>
   (\<exists>w. asyncRelay turn (Plain v) = Fulfilled turn w \<and> labels v \<subseteq> labels w) \<and>
   asyncRelay turn (Thenable (Fulfilled t x)) = Fulfilled (max turn t) x \<and>
   asyncRelay turn (Thenable (Rejected t e)) = Rejected (max turn t) e \<and>
   asyncRelay turn (Thenable Pending) = Pending"
  by (simp add: passthrough_def arrayRelay_def objectRelay_def multiHopRelay_def
      asyncRelay_def)

lemma simpleChain_Normal:
  "transformer source = Normal x \<Longrightarrow>
   simpleChain source transformer sink = \<lparr>outcome = settle (sink x), sink_calls = [x]\<rparr>"
  by (simp add: simpleChain_def)

lemma simpleChain_Throw:
  "transformer source = Throw e \<Longrightarrow>
   simpleChain source transformer sink = \<lparr>outcome = Rejected 0 e, sink_calls = []\<rparr>"
  by (simp add: simpleChain_def)

lemma str_includes_middle: "str_includes (a @ b @ c) b"
proof (induction a)
  case Nil
  have p: "prefix b (b @ c)" by simp
  show ?case
  proof (cases "b @ c")
    case Nil
    then show ?thesis by simp
  next
    case (Cons x xs)
    with p have "prefix b (x # xs)" by simp
    with Cons show ?thesis by simp
  qed
next
  case (Cons x a)
  then show ?case by simp
qed

text \<open>
  C7, as the code has it. The template literal of \<open>concat\<close> returns a primitive string,
  and a primitive string carries no tag. Fed the labelled value (payload \<open>"ls"\<close>, label
  \<open>HTTP_BODY\<close>), the \<open>concat\<close> relay hands the sink \<open>"[object Object] -la"\<close>; fed the bare
  payload \<open>"ls"\<close>, it hands the sink \<open>"ls -la"\<close>: in both runs the one value the sink
  receives has no label, while the chain completes.
\<close>

theorem concat_returns_untagged_string:
  "sink_calls (simpleChain (Tagged ls_from_body) append_la echo_sink) =
     [Bare (js ''[object Object] -la'')] \<and>
   sink_calls (simpleChain (Bare (js ''ls'')) append_la echo_sink) = [Bare (js ''ls -la'')] \<and>
   HTTP_BODY \<in> labels_of (Tagged ls_from_body) \<and>
   list_all (\<lambda>x. HTTP_BODY \<notin> labels_of x)
     (sink_calls (simpleChain (Tagged ls_from_body) append_la echo_sink)) \<and>
   list_all (\<lambda>x. HTTP_BODY \<notin> labels_of x)
     (sink_calls (simpleChain (Bare (js ''ls'')) append_la echo_sink)) \<and>
   outcome (simpleChain (Tagged ls_from_body) append_la echo_sink) =
     Fulfilled 1 (Bare (js ''[object Object] -la'')) \<and>
   outcome (simpleChain (Bare (js ''ls'')) append_la echo_sink) =
     Fulfilled 1 (Bare (js ''ls -la''))"
  by (simp add: simpleChain_def append_la_def concat_str_def echo_sink_def settle_def
      ls_from_body_def js_def)

text \<open>
  C7, amended. When the transformer returns \<open>x\<close> for the source, \<open>simpleChain\<close> invokes the
  sink exactly once, with \<open>x\<close>, and its result is the sink's result: the promise the sink
  returns, or a rejection with what the sink throws; when the transformer throws, the sink
  is not invoked and the chain rejects with what was thrown. \<open>concat\<close> returns the three
  conversions to string joined, a string that contains the conversion of the data and
  carries no label. With the source payload \<open>"ls"\<close> and the \<open>concat\<close> relay appending
  \<open>" -la"\<close>, the one sink invocation receives the bare string \<open>"ls -la"\<close>, and the chain
  completes (its promise is fulfilled) when the sink does.
\<close>

theorem simpleChain_composition:
  "(transformer source = Normal x \<longrightarrow>
      sink_calls (simpleChain source transformer sink) = [x] \<and>
      (\<forall>p. sink x = Normal p \<longrightarrow> outcome (simpleChain source transformer sink) = p) \<and>
      (\<forall>e. sink x = Throw e \<longrightarrow>
         outcome (simpleChain source transformer sink) = Rejected 0 e)) \<and>
   (transformer source = Throw e' \<longrightarrow>
      sink_calls (simpleChain source transformer sink) = [] \<and>
      outcome (simpleChain source transformer sink) = Rejected 0 e') \<and>
   ToString (concat_str pre d suf) = ToString pre @ ToString d @ ToString suf \<and>
   str_includes (ToString (concat_str pre d suf)) (ToString d) \<and>
   labels_of (concat_str pre d suf) = {} \<and>
   sink_calls (simpleChain (Bare (js ''ls'')) append_la sink') = [Bare (js ''ls -la'')] \<and>
   (sink' (Bare (js ''ls -la'')) = Normal (Fulfilled t r) \<longrightarrow>
      outcome (simpleChain (Bare (js ''ls'')) append_la sink') = Fulfilled t r)"
proof -
  have a: "append_la (Bare (js ''ls'')) = Normal (Bare (js ''ls -la''))"
    by (simp add: append_la_def concat_str_def js_def)
  have c: "ToString (concat_str pre d suf) = ToString pre @ ToString d @ ToString suf"
    by (simp add: concat_str_def)
  have i: "str_includes (ToString (concat_str pre d suf)) (ToString d)"
    unfolding c by (rule str_includes_middle)
  have l: "labels_of (concat_str pre d suf) = {}"
    by (simp add: concat_str_def)
  show ?thesis
    using a c i l
    by (simp add: simpleChain_def settle_def)
qed

theorem simpleChain_composition_witness:
  "append_la (Bare (js ''ls'')) = Normal (Bare (js ''ls -la'')) \<and>
   echo_sink (Bare (js ''ls -la'')) = Normal (Fulfilled 1 (Bare (js ''ls -la''))) \<and>
   sink_calls (simpleChain (Bare (js ''ls'')) append_la echo_sink) = [Bare (js ''ls -la'')] \<and>
   outcome (simpleChain (Bare (js ''ls'')) append_la echo_sink) =
     Fulfilled 1 (Bare (js ''ls -la'')) \<and>
   strip_labels ls_from_body = Normal (ls_from_body\<lparr>labels := {}\<rparr>) \<and>
   sink_calls (simpleChain ls_from_body strip_labels echo_sink) =
     [ls_from_body\<lparr>labels := {}\<rparr>]"
proof -
  have a: "append_la (Bare (js ''ls'')) = Normal (Bare (js ''ls -la''))"
    by (simp add: append_la_def concat_str_def js_def)
  have k: "echo_sink (Bare (js ''ls -la'')) = Normal (Fulfilled 1 (Bare (js ''ls -la'')))"
    by (simp add: echo_sink_def)
  have b: "strip_labels ls_from_body = Normal (ls_from_body\<lparr>labels := {}\<rparr>)"
    by (simp add: strip_labels_def)
  have 1: "sink_calls (simpleChain (Bare (js ''ls'')) append_la echo_sink) =
      [Bare (js ''ls -la'')] \<and>
    outcome (simpleChain (Bare (js ''ls'')) append_la echo_sink) =
      Fulfilled 1 (Bare (js ''ls -la''))"
    using a k simpleChain_composition
      [where transformer = append_la and source = "Bare (js ''ls'')"
         and x = "Bare (js ''ls -la'')" and sink' = echo_sink and sink = echo_sink
         and t = 1 and r = "Bare (js ''ls -la'')" and e' = "()"
         and pre = "Bare []" and d = "Bare (js ''ls'')" and suf = "Bare (js '' -la'')"]
    by blast
  have 2: "sink_calls (simpleChain ls_from_body strip_labels echo_sink) =
      [ls_from_body\<lparr>labels := {}\<rparr>]"
    using b simpleChain_composition
      [where transformer = strip_labels and source = ls_from_body
         and x = "ls_from_body\<lparr>labels := {}\<rparr>" and sink = echo_sink
         and sink' = echo_sink and t = 1 and r = "Bare (js ''ls -la'')" and e' = "()"
         and pre = "Bare []" and d = "Bare (js ''ls'')" and suf = "Bare (js '' -la'')"]
    by blast
  from a k b 1 2 show ?thesis by simp
qed

text \<open>
  C2, as the code has it. \<open>ChainBuilder\<close> has no verification layer: a chain whose
  transformer strips the labels of its input completes with the sink's result.
\<close>

theorem stripped_labels_chain_completes:
  "outcome (simpleChain ls_from_body strip_labels echo_sink) =
     Fulfilled 1 \<lparr>payload = js ''ls'', labels = {}, hopCount = 0\<rparr>"
  by (simp add: simpleChain_def strip_labels_def echo_sink_def ls_from_body_def settle_def)

text \<open>
  C2, amended. A run of \<open>simpleChain\<close> is rejected only with a reason that the transformer
  or the sink itself raised (the transformer threw it, or the sink threw it or rejected with
  it); whenever the transformer returns, whatever it did to the labels of its input, and the
  sink fulfils, the run fulfils with the sink's result.
\<close>

theorem simpleChain_no_verification:
  "(outcome (simpleChain source transformer sink) = Rejected t e \<longrightarrow>
      (transformer source = Throw e \<and> t = 0) \<or>
      (\<exists>x. transformer source = Normal x \<and>
         ((sink x = Throw e \<and> t = 0) \<or> sink x = Normal (Rejected t e)))) \<and>
   (transformer source = Normal x \<and> sink x = Normal (Fulfilled t r) \<longrightarrow>
      outcome (simpleChain source transformer sink) = Fulfilled t r)"
  by (auto simp: simpleChain_def settle_def split: completion.splits)

theorem simpleChain_no_verification_witness:
  "strip_labels ls_from_body = Normal (ls_from_body\<lparr>labels := {}\<rparr>) \<and>
   echo_sink (ls_from_body\<lparr>labels := {}\<rparr>) = Normal (Fulfilled 1 (ls_from_body\<lparr>labels := {}\<rparr>)) \<and>
   outcome (simpleChain ls_from_body strip_labels echo_sink) =
     Fulfilled 1 (ls_from_body\<lparr>labels := {}\<rparr>) \<and>
   outcome (simpleChain ls_from_body strip_labels rejecting_sink) = Rejected 1 () \<and>
   rejecting_sink (ls_from_body\<lparr>labels := {}\<rparr>) = Normal (Rejected 1 ())"
proof -
  have a: "strip_labels ls_from_body = Normal (ls_from_body\<lparr>labels := {}\<rparr>)"
    by (simp add: strip_labels_def)
  have k: "echo_sink (ls_from_body\<lparr>labels := {}\<rparr>) =
      Normal (Fulfilled 1 (ls_from_body\<lparr>labels := {}\<rparr>))"
    by (simp add: echo_sink_def)
  have r: "outcome (simpleChain ls_from_body strip_labels rejecting_sink) = Rejected 1 ()"
    by (simp add: simpleChain_def strip_labels_def rejecting_sink_def settle_def)
  have k': "rejecting_sink (ls_from_body\<lparr>labels := {}\<rparr>) = Normal (Rejected 1 ())"
    using simpleChain_no_verification
      [of ls_from_body strip_labels rejecting_sink 1 "()" "ls_from_body\<lparr>labels := {}\<rparr>"] r a
    by auto
  show ?thesis
    using a k r k' simpleChain_no_verification
      [of ls_from_body strip_labels echo_sink 1 "()" "ls_from_body\<lparr>labels := {}\<rparr>"
          "ls_from_body\<lparr>labels := {}\<rparr>"]
    by simp
qed

lemma invoke_all_no_throw:
  "\<forall>k\<in>set sinks. \<exists>p. k source = Normal p \<Longrightarrow>
   invoke_all source sinks = (Normal (map (\<lambda>k. settle (k source)) sinks), length sinks)"
  by (induction sinks) (auto simp: settle_def)

lemma rejections_mem:
  "(t, i, e) \<in> set (rejections n ps) \<Longrightarrow> Rejected t e \<in> set ps"
  by (induction n ps rule: rejections.induct) auto

lemma rejections_Nil:
  "(rejections n ps = []) = (\<forall>t e. Rejected t e \<notin> set ps)"
  by (induction n ps rule: rejections.induct) auto

lemma earliest_mem: "earliest r rs \<in> set (r # rs)"
  by (induction r rs rule: earliest.induct) auto

lemma fulfilments_Some:
  "fulfilments ps = Some (t, vs) \<Longrightarrow> list_all2 (\<lambda>p v. \<exists>t'. p = Fulfilled t' v) ps vs"
  by (induction ps arbitrary: t vs rule: fulfilments.induct) (auto split: option.splits)

lemma fulfilments_None:
  "(fulfilments ps = None) = (\<exists>p\<in>set ps. \<forall>t v. p \<noteq> Fulfilled t v)"
  by (induction ps rule: fulfilments.induct) (auto split: option.splits)

lemma promise_all_Fulfilled:
  "promise_all ps = Fulfilled t vs \<Longrightarrow> list_all2 (\<lambda>p v. \<exists>t'. p = Fulfilled t' v) ps vs"
  by (auto simp: promise_all_def fulfilments_Some split: list.splits option.splits prod.splits)

lemma promise_all_Fulfilled_iff:
  "(\<exists>t vs. promise_all ps = Fulfilled t vs) = (\<forall>p\<in>set ps. \<exists>t v. p = Fulfilled t v)"
proof
  assume "\<exists>t vs. promise_all ps = Fulfilled t vs"
  then obtain t vs where "promise_all ps = Fulfilled t vs" by blast
  from promise_all_Fulfilled [OF this] show "\<forall>p\<in>set ps. \<exists>t v. p = Fulfilled t v"
    by (fastforce simp: list_all2_conv_all_nth in_set_conv_nth)
next
  assume a: "\<forall>p\<in>set ps. \<exists>t v. p = Fulfilled t v"
  then have "rejections 0 ps = []"
    by (auto simp: rejections_Nil)
  moreover from a have "fulfilments ps \<noteq> None"
    by (auto simp: fulfilments_None)
  ultimately show "\<exists>t vs. promise_all ps = Fulfilled t vs"
    by (auto simp: promise_all_def)
qed

lemma promise_all_Rejected:
  assumes "Rejected t e \<in> set ps"
  shows "\<exists>t' e'. promise_all ps = Rejected t' e' \<and> Rejected t' e' \<in> set ps"
proof -
  from assms have "rejections 0 ps \<noteq> []"
    by (auto simp: rejections_Nil)
  then obtain r rs where r: "rejections 0 ps = r # rs"
    by (cases "rejections 0 ps") auto
  obtain t' i' e' where e: "earliest r rs = (t', i', e')"
    by (cases "earliest r rs") auto
  have "(t', i', e') \<in> set (rejections 0 ps)"
    using earliest_mem [of r rs] r e by simp
  then have "Rejected t' e' \<in> set ps"
    by (rule rejections_mem)
  moreover have "promise_all ps = Rejected t' e'"
    by (simp add: promise_all_def r e)
  ultimately show ?thesis by blast
qed

text \<open>
  C6, as the code has it. Over the sinks \<open>[A, B]\<close> where \<open>A\<close>'s promise is rejected and \<open>B\<close>'s
  is fulfilled, both sinks are called, but the run is rejected with \<open>A\<close>'s reason: the value
  \<open>B\<close> produced is recorded nowhere in the outcome.
\<close>

theorem rejection_discards_other_results:
  "echo_sink (js ''ls'') = Normal (Fulfilled 1 (js ''ls'')) \<and>
   sink_calls (parallelSinks (js ''ls'') [rejecting_sink, echo_sink]) = [js ''ls'', js ''ls''] \<and>
   outcome (parallelSinks (js ''ls'') [rejecting_sink, echo_sink]) = Rejected 1 ()"
  by (simp add: parallelSinks_def rejecting_sink_def echo_sink_def promise_all_def
      numeral_2_eq_2)

text \<open>
  C6, amended. When no sink throws synchronously, \<open>parallelSinks\<close> calls every listed sink
  with the source, in list order, whatever becomes of the promises of the sinks before it
  (fulfilled, rejected or never settled). Its promise is fulfilled exactly when every sink's
  promise is, with the list of their values in list order; when some sink's promise is
  rejected, it is rejected with the reason of one of the rejecting sinks, and the values of
  the other sinks are not part of the outcome.
\<close>

theorem parallelSinks_fanout:
  assumes "\<forall>k\<in>set sinks. \<exists>p. k source = Normal p"
  shows "sink_calls (parallelSinks source sinks) = replicate (length sinks) source \<and>
         ((\<exists>t vs. outcome (parallelSinks source sinks) = Fulfilled t vs) =
            (\<forall>k\<in>set sinks. \<exists>t v. k source = Normal (Fulfilled t v))) \<and>
         (outcome (parallelSinks source sinks) = Fulfilled t vs \<longrightarrow>
            list_all2 (\<lambda>k v. \<exists>t'. k source = Normal (Fulfilled t' v)) sinks vs) \<and>
         ((\<exists>k\<in>set sinks. \<exists>t e. k source = Normal (Rejected t e)) \<longrightarrow>
            (\<exists>t e. outcome (parallelSinks source sinks) = Rejected t e \<and>
               (\<exists>k\<in>set sinks. k source = Normal (Rejected t e))))"
proof -
  let ?ps = "map (\<lambda>k. settle (k source)) sinks"
  have inv: "invoke_all source sinks = (Normal ?ps, length sinks)"
    using assms by (rule invoke_all_no_throw)
  have out: "outcome (parallelSinks source sinks) = promise_all ?ps"
    and calls: "sink_calls (parallelSinks source sinks) = replicate (length sinks) source"
    by (simp_all add: parallelSinks_def inv)
  have st: "\<And>k p. k \<in> set sinks \<Longrightarrow> (settle (k source) = p) = (k source = Normal p)"
    using assms by (auto simp: settle_def)
  have a: "(\<exists>t vs. promise_all ?ps = Fulfilled t vs) =
      (\<forall>k\<in>set sinks. \<exists>t v. k source = Normal (Fulfilled t v))"
    unfolding promise_all_Fulfilled_iff using st by auto
  have b: "promise_all ?ps = Fulfilled t vs \<longrightarrow>
      list_all2 (\<lambda>k v. \<exists>t'. k source = Normal (Fulfilled t' v)) sinks vs"
  proof
    assume "promise_all ?ps = Fulfilled t vs"
    from promise_all_Fulfilled [OF this]
    show "list_all2 (\<lambda>k v. \<exists>t'. k source = Normal (Fulfilled t' v)) sinks vs"
      using st by (auto simp: list_all2_conv_all_nth)
  qed
  have c: "(\<exists>k\<in>set sinks. \<exists>t e. k source = Normal (Rejected t e)) \<longrightarrow>
      (\<exists>t e. promise_all ?ps = Rejected t e \<and>
         (\<exists>k\<in>set sinks. k source = Normal (Rejected t e)))"
  proof
    assume "\<exists>k\<in>set sinks. \<exists>t e. k source = Normal (Rejected t e)"
    then obtain k t e where "k \<in> set sinks" "k source = Normal (Rejected t e)" by blast
    then have "Rejected t e \<in> set ?ps"
      by (force simp: settle_def)
    from promise_all_Rejected [OF this] obtain t' e'
      where r: "promise_all ?ps = Rejected t' e'" and m: "Rejected t' e' \<in> set ?ps"
      by blast
    from m obtain k' where "k' \<in> set sinks" "settle (k' source) = Rejected t' e'"
      by auto
    with st have "\<exists>k\<in>set sinks. k source = Normal (Rejected t' e')" by blast
    with r show "\<exists>t e. promise_all ?ps = Rejected t e \<and>
         (\<exists>k\<in>set sinks. k source = Normal (Rejected t e))" by blast
  qed
  show ?thesis
    unfolding out using calls a b c by blast
qed

theorem parallelSinks_fanout_witness:
  "sink_calls (parallelSinks (js ''ls'') [rejecting_sink, echo_sink]) = [js ''ls'', js ''ls''] \<and>
   outcome (parallelSinks (js ''ls'') [rejecting_sink, echo_sink]) = Rejected 1 () \<and>
   sink_calls (parallelSinks (js ''ls'') [echo_sink, echo_sink]) = [js ''ls'', js ''ls''] \<and>
   outcome (parallelSinks (js ''ls'') [echo_sink, echo_sink]) = Fulfilled 1 [js ''ls'', js ''ls'']"
proof -
  have h1: "\<forall>k\<in>set [rejecting_sink, echo_sink]. \<exists>p. k (js ''ls'') = Normal p"
    by (simp add: rejecting_sink_def echo_sink_def)
  have h2: "\<forall>k\<in>set [echo_sink, echo_sink]. \<exists>p. k (js ''ls'') = Normal p"
    by (simp add: echo_sink_def)
  have o1: "outcome (parallelSinks (js ''ls'') [rejecting_sink, echo_sink]) = Rejected 1 ()"
    by (simp add: parallelSinks_def rejecting_sink_def echo_sink_def promise_all_def)
  have o2: "outcome (parallelSinks (js ''ls'') [echo_sink, echo_sink]) =
      Fulfilled 1 [js ''ls'', js ''ls'']"
    by (simp add: parallelSinks_def echo_sink_def promise_all_def)
  show ?thesis
    using parallelSinks_fanout [OF h1] parallelSinks_fanout [OF h2] o1 o2
    by (simp add: numeral_2_eq_2)
qed

section \<open>Properties of ContextPropagation\<close>

lemma set_get_other_keys: "key \<noteq> js ''__proto__'' \<Longrightarrow> ContextPropagation_get (ContextPropagation_set this key v) key = Value v"
  by (auto simp: ContextPropagation_get_def ContextPropagation_set_def obj_get_def obj_set_def define_own_def
      object_prototype_set_def update_conv' split: prototype.splits)

lemma obj_set_plain:
  assumes "proto obj = ObjectPrototype" and "key \<noteq> js ''__proto__''"
  shows "proto (obj_set obj key v) = ObjectPrototype"
    and "fst ` set (own (obj_set obj key v)) = insert key (fst ` set (own obj))"
  using assms
  by (auto simp: obj_set_def define_own_def object_prototype_set_def update_conv'
      simp flip: dom_map_of_conv_image_fst)

lemma foldl_sets_plain:
  assumes "proto (context this) = ObjectPrototype" and "js ''__proto__'' \<notin> fst ` set ops"
  shows "proto (context (foldl (\<lambda>this (key, v). ContextPropagation_set this key v) this ops)) = ObjectPrototype \<and>
         fst ` set (own (context (foldl (\<lambda>this (key, v). ContextPropagation_set this key v) this ops))) =
           fst ` set (own (context this)) \<union> fst ` set ops"
  using assms
proof (induction ops arbitrary: this)
  case Nil
  then show ?case by simp
next
  case (Cons op ops)
  obtain key v where op: "op = (key, v)" by (cases op)
  have k: "key \<noteq> js ''__proto__''" using Cons.prems(2) op by auto
  have p: "proto (context (ContextPropagation_set this key v)) = ObjectPrototype"
    using obj_set_plain(1) [OF Cons.prems(1) k] by (simp add: ContextPropagation_set_def)
  have o: "fst ` set (own (context (ContextPropagation_set this key v))) =
      insert key (fst ` set (own (context this)))"
    using obj_set_plain(2) [OF Cons.prems(1) k] by (simp add: ContextPropagation_set_def)
  have r: "js ''__proto__'' \<notin> fst ` set ops" using Cons.prems(2) by auto
  show ?case
    using Cons.IH [OF p r] o op by auto
qed

lemma get_absent:
  assumes "proto (context this) = ObjectPrototype" and "k \<notin> fst ` set (own (context this))"
    and "k \<notin> set object_prototype_keys"
  shows "ContextPropagation_get this k = Value Undefined"
proof -
  have "map_of (own (context this)) k = None"
    using assms(2) by (simp add: map_of_eq_None_iff)
  then show ?thesis
    using assms(1,3)
    by (simp add: ContextPropagation_get_def obj_get_def object_prototype_get_def
        object_prototype_keys_def)
qed

text \<open>
  C5, amended. The store has no \<open>NotFound\<close> and no \<open>Cleared\<close> outcome, and no operation that
  clears a key. On a store whose \<open>set\<close> calls never used the key \<open>__proto__\<close>, reading a key
  that was never set and that names no member of \<open>Object.prototype\<close> returns \<open>undefined\<close>,
  an ordinary value; reading the key after it was overwritten with \<open>undefined\<close> returns the
  same.
\<close>

theorem get_never_set:
  assumes "k \<notin> fst ` set ops" and "js ''__proto__'' \<notin> fst ` set ops"
    and "k \<notin> set object_prototype_keys"
  shows "ContextPropagation_get (after_sets ops) k = Value Undefined \<and>
         ContextPropagation_get (ContextPropagation_set (after_sets ops) k Undefined) k = Value Undefined"
proof -
  have n: "proto (context new_ContextPropagation) = ObjectPrototype"
    by (simp add: new_ContextPropagation_def)
  from foldl_sets_plain [OF n assms(2)]
  have p: "proto (context (after_sets ops)) = ObjectPrototype"
    and o: "fst ` set (own (context (after_sets ops))) = fst ` set ops"
    by (simp_all add: after_sets_def new_ContextPropagation_def)
  have "k \<notin> fst ` set (own (context (after_sets ops)))"
    using o assms(1) by simp
  from get_absent [OF p this assms(3)]
  have a: "ContextPropagation_get (after_sets ops) k = Value Undefined" .
  have "k \<noteq> js ''__proto__''"
    using assms(3) by (auto simp: object_prototype_keys_def)
  then have b: "ContextPropagation_get (ContextPropagation_set (after_sets ops) k Undefined) k = Value Undefined"
    by (rule set_get_other_keys)
  from a b show ?thesis by simp
qed

theorem get_never_set_witness:
  "js ''cmd'' \<notin> fst ` set [(js ''user'', String (js ''bob''))] \<and>
   js ''__proto__'' \<notin> fst ` set [(js ''user'', String (js ''bob''))] \<and>
   js ''cmd'' \<notin> set object_prototype_keys \<and>
   ContextPropagation_get (after_sets [(js ''user'', String (js ''bob''))]) (js ''cmd'') = Value Undefined"
proof -
  have a: "js ''cmd'' \<notin> fst ` set [(js ''user'', String (js ''bob''))]"
    by (simp add: js_def)
  have b: "js ''__proto__'' \<notin> fst ` set [(js ''user'', String (js ''bob''))]"
    by (simp add: js_def)
  have c: "js ''cmd'' \<notin> set object_prototype_keys"
    by (simp add: object_prototype_keys_def object_prototype_methods_def js_def)
  show ?thesis
    using a b c get_never_set [OF a b c] by simp
qed

text \<open>
  C5, as the code has it. On a new store \<open>get("cmd")\<close> returns the value \<open>undefined\<close>; it does
  not fail, and the outcome is the same as for a key that was explicitly overwritten with
  \<open>undefined\<close>.
\<close>

theorem get_missing_returns_undefined:
  "ContextPropagation_get new_ContextPropagation (js ''cmd'') = Value Undefined \<and>
   ContextPropagation_get (ContextPropagation_set new_ContextPropagation (js ''cmd'') Undefined) (js ''cmd'') = Value Undefined"
  by (simp add: ContextPropagation_get_def ContextPropagation_set_def new_ContextPropagation_def obj_get_def obj_set_def
      object_prototype_get_def object_prototype_set_def define_own_def
      object_prototype_methods_def js_def)

text \<open>
  C4, at the key \<open>__proto__\<close>. \<open>set("__proto__", "ls")\<close> on a new store runs the \<open>__proto__\<close>
  setter of \<open>Object.prototype\<close>, which ignores a string; the \<open>get("__proto__")\<close> that follows
  returns \<open>Object.prototype\<close>, not \<open>"ls"\<close>. For every other key the value read is the value
  stored (\<open>set_get_other_keys\<close>).
\<close>

theorem proto_key_not_stored:
  "ContextPropagation_get (ContextPropagation_set new_ContextPropagation (js ''__proto__'') (String (js ''ls'')))
     (js ''__proto__'') = TheObjectPrototype"
  by (simp add: ContextPropagation_get_def ContextPropagation_set_def new_ContextPropagation_def obj_get_def obj_set_def
      object_prototype_get_def object_prototype_set_def)

section \<open>Properties of the Buffer and JSON models\<close>








lemma map_filter_Cons_Some: "f x = Some y \<Longrightarrow> List.map_filter f (x # xs) = y # List.map_filter f xs"
  by (simp add:)





















lemma utf8_decode_ascii: "b < 0x80 \<Longrightarrow> utf8_decode (b # rest) = b # utf8_decode rest"
  by simp








































lemma digits1_Nil: "digits1 pre [] = None"
  by (simp add: digits1_def)
























section \<open>Properties of the round trips\<close>




section \<open>Properties of JwtSource\<close>

text \<open>
  C10. \<open>extractClaims\<close> always returns and never throws. It returns \<open>null\<close> for a missing
  or empty token (and for any other value that is not a non-empty string), for a token
  that does not split into exactly three parts at the full stops, and for a token whose
  decoded payload segment makes \<open>JSON.parse\<close> throw (the base64 decoding itself cannot
  fail); otherwise it returns what \<open>JSON.parse\<close> returned for the decoded payload. The
  first and the third segment (the signature) never influence the result.
\<close>

theorem extractClaims_total:
  "(\<exists>r. extractClaims rd token = Normal r) \<and>
   (falsy token \<longrightarrow> extractClaims rd token = Normal JNull) \<and>
   ((\<forall>s. token \<noteq> String s) \<longrightarrow> extractClaims rd token = Normal JNull) \<and>
   (token = String s \<and> length (split_on 46 s) \<noteq> 3 \<longrightarrow> extractClaims rd token = Normal JNull) \<and>
   (token = String s \<and> length (split_on 46 s) = 3 \<and>
      JSON_parse rd (decode_segment (split_on 46 s ! 1)) = Throw e \<longrightarrow>
      extractClaims rd token = Normal JNull) \<and>
   (token = String s \<and> s \<noteq> [] \<and> length (split_on 46 s) = 3 \<and>
      JSON_parse rd (decode_segment (split_on 46 s ! 1)) = Normal claims \<longrightarrow>
      extractClaims rd token = Normal claims) \<and>
   (length (split_on 46 s) = 3 \<and> length (split_on 46 s') = 3 \<and>
      split_on 46 s ! 1 = split_on 46 s' ! 1 \<and> s \<noteq> [] \<and> s' \<noteq> [] \<longrightarrow>
      extractClaims rd (String s) = extractClaims rd (String s'))"
  by (auto simp: extractClaims_def extractClaims_try_def call_split_def falsy_def
      split: completion.splits jsval.splits)

text \<open>
  The token \<open>e30.eyJhIjoxfQ.sig\<close>: its payload segment is the base64 text of \<open>{"a":1}\<close>;
  \<open>bm9wZQ\<close> is the base64 text of \<open>nope\<close>, which is no JSON.
\<close>

lemma sextets_claims: "b64_sextets (js ''eyJhIjoxfQ'') = [30, 50, 9, 33, 8, 35, 40, 49, 31, 16]"
  by (simp add: b64_sextets_def b64_value_def unbase64_def low_byte_def js_def)

lemma bytes_claims: "sextets_to_bytes [30, 50, 9, 33, 8, 35, 40, 49, 31, 16] = [123, 34, 97, 34, 58, 49, 125]"
  by simp

lemma code_points_claims: "utf8_decode [123, 34, 97, 34, 58, 49, 125] = [123, 34, 97, 34, 58, 49, 125]"
  by simp

lemma decode_claims: "decode_segment (js ''eyJhIjoxfQ'') = js ''{\"a\":1}''"
  by (simp add: decode_segment_def Buffer_from_base64_def Buffer_toString_utf8_def sextets_claims bytes_claims code_points_claims
      utf16_encode_def) (simp add: js_def)

lemma tokenise_claims: "tokenise (js ''{\"a\":1}'') =
    Some [TLBrace, TString (js ''a''), TColon, TNumber (js ''1''), TRBrace]"
  by (simp add: js_def is_ws_def punctuation_def is_digit_def cons_token_def cons_unit_def
      lex_number_def opt_minus_def int_part_def frac_part_def exp_part_def)

lemma parse_claims: "JSON_parse literal_number (js ''{\"a\":1}'') =
    Normal (JObject [(js ''a'', JNumber (js ''1''))])"
  by (simp add: JSON_parse_def tokenise_claims literal_number_def)

lemma sextets_nope: "b64_sextets (js ''bm9wZQ'') = [27, 38, 61, 48, 25, 16]"
  by (simp add: b64_sextets_def b64_value_def unbase64_def low_byte_def js_def)

lemma decode_nope: "decode_segment (js ''bm9wZQ'') = js ''nope''"
  by (simp add: decode_segment_def Buffer_from_base64_def Buffer_toString_utf8_def sextets_nope
      utf16_encode_def) (simp add: js_def)

lemma tokenise_nope: "tokenise (js ''nope'') = None"
  by (simp add: js_def is_ws_def punctuation_def is_digit_def keyword_def)

lemma parse_nope: "JSON_parse literal_number (js ''nope'') = Throw SyntaxError"
  by (simp add: JSON_parse_def tokenise_nope)

theorem extractClaims_total_witness:
  "extractClaims literal_number (String (js ''e30.eyJhIjoxfQ.sig'')) =
     Normal (JObject [(js ''a'', JNumber (js ''1''))]) \<and>
   extractClaims literal_number (String (js ''e30.eyJhIjoxfQ.other'')) =
     Normal (JObject [(js ''a'', JNumber (js ''1''))]) \<and>
   extractClaims literal_number (String (js ''e30.bm9wZQ.sig'')) = Normal JNull \<and>
   extractClaims literal_number (String (js ''e30.eyJhIjoxfQ'')) = Normal JNull \<and>
   extractClaims literal_number (String []) = Normal JNull \<and>
   extractClaims literal_number Undefined = Normal JNull \<and>
   extractClaims literal_number (Number 5) = Normal JNull"
proof -
  have s1: "split_on 46 (js ''e30.eyJhIjoxfQ.sig'') = [js ''e30'', js ''eyJhIjoxfQ'', js ''sig'']"
    and s2: "split_on 46 (js ''e30.eyJhIjoxfQ.other'') =
      [js ''e30'', js ''eyJhIjoxfQ'', js ''other'']"
    and s3: "split_on 46 (js ''e30.bm9wZQ.sig'') = [js ''e30'', js ''bm9wZQ'', js ''sig'']"
    and s4: "split_on 46 (js ''e30.eyJhIjoxfQ'') = [js ''e30'', js ''eyJhIjoxfQ'']"
    by (simp_all add: js_def)
  have ne: "js ''e30.eyJhIjoxfQ.sig'' \<noteq> []" "js ''e30.eyJhIjoxfQ.other'' \<noteq> []"
    by (simp_all add: js_def)
  note t = extractClaims_total [where rd = literal_number]
  have a: "extractClaims literal_number (String (js ''e30.eyJhIjoxfQ.sig'')) =
      Normal (JObject [(js ''a'', JNumber (js ''1''))])"
    using t [where token = "String (js ''e30.eyJhIjoxfQ.sig'')" and s = "js ''e30.eyJhIjoxfQ.sig''"
        and claims = "JObject [(js ''a'', JNumber (js ''1''))]"] s1 ne
    by (simp add: decode_claims parse_claims)
  have b: "extractClaims literal_number (String (js ''e30.eyJhIjoxfQ.other'')) =
      extractClaims literal_number (String (js ''e30.eyJhIjoxfQ.sig''))"
    using t [where s = "js ''e30.eyJhIjoxfQ.other''" and s' = "js ''e30.eyJhIjoxfQ.sig''"] s1 s2 ne
    by simp
  have c: "extractClaims literal_number (String (js ''e30.bm9wZQ.sig'')) = Normal JNull"
    using t [where token = "String (js ''e30.bm9wZQ.sig'')" and s = "js ''e30.bm9wZQ.sig''"
        and e = SyntaxError] s3
    by (simp add: decode_nope parse_nope)
  have d: "extractClaims literal_number (String (js ''e30.eyJhIjoxfQ'')) = Normal JNull"
    using t [where token = "String (js ''e30.eyJhIjoxfQ'')" and s = "js ''e30.eyJhIjoxfQ''"] s4
    by simp
  have e: "extractClaims literal_number (String []) = Normal JNull"
    "extractClaims literal_number Undefined = Normal JNull"
    using t [where token = "String []"] t [where token = Undefined]
    by (simp_all add: falsy_def)
  have f: "extractClaims literal_number (Number 5) = Normal JNull"
    using t [where token = "Number 5"] by simp
  from a b c d e f show ?thesis by simp
qed

end
